theory Spec2Isabelle
  imports Main "HOL-Library.AList"
begin

section \<open>Python values, errors and dictionaries\<close>

text \<open>
  The library manipulates dynamically typed Python values. The fragment needed here:
  \<^item> \<open>pyval\<close>: None, bool, int, float, str, bytes, list and dict. A \<open>str\<close> is a
    \<open>string\<close> whose characters are the code points 0..255; \<open>bytes\<close> is a byte list.
    A finite float is carried by its \<open>repr\<close> text (which determines the float); the
    three non-finite floats are constructors of their own.
  \<^item> \<open>pykey\<close>: the hashable values that occur as keys of a dict handed to the JSON encoder.
  \<^item> a Python \<open>dict\<close> is an association list with distinct keys in insertion order:
    \<open>map_of\<close> reads it, \<open>AList.update\<close> is \<open>d[k] = v\<close> (an existing key keeps its place, a
    new one goes last), \<open>AList.delete\<close> removes a key.
\<close>

datatype pyfloat = FFinite string | FNaN | FPosInf | FNegInf

datatype pykey = KStr string | KInt int | KFloat pyfloat | KBool bool | KNone | KBytes string

datatype pyval =
    PNone
  | PBool bool
  | PInt int
  | PFloat pyfloat
  | PStr string
  | PBytes string
  | PList "pyval list"
  | PDict "(pykey \<times> pyval) list"

text \<open>
  Every \<open>raise\<close> of the source and every exception of a library call is a value:
  the exception class is the constructor, the \<open>reason\<close> identifies the raise site
  (the source's message text).

  Modelled from the spec: the module \<open>hyperad/errors.py\<close>, which declares
  \<open>DuplicateValue\<close>, is not among the sources. The spec has it as the duplicate-key error
  of a composite, a kind of its own beside the type and value errors; it carries the key.
\<close>

datatype reason =
    NameNotStrOrBytes \<comment> \<open>"name is expected as a str or bytes object"\<close>
  | ValueNotByteLike \<comment> \<open>"value is expected as a byte-like object"\<close>
  | FileNotFileLike \<comment> \<open>"file is expected as a file-like object or byte-like or iterable or str object"\<close>
  | FilenameNotProvided \<comment> \<open>"Please provide filename explicitly if file doesn't have name attribute"\<close>
  | JsonNotSerializable \<comment> \<open>"json is expected a serializable json object"\<close>
  | ExtractSize nat \<comment> \<open>"Only one-element dict can be extracted, n element(s) found."\<close>
  | UnsupportedContent \<comment> \<open>"Unsupported Content (<type name>)"\<close>
  | DontUseParameters "string list" \<comment> \<open>"Don't use these parameters (...). They have already been included ..."\<close>
  | OutOfRangeFloat \<comment> \<open>json: "Out of range float values are not JSON compliant"\<close>
  | ObjectNotSerializable \<comment> \<open>json: "Object of type ... is not JSON serializable"\<close>
  | KeysMustBeBasic \<comment> \<open>json: "keys must be str, int, float, bool or None, not ..."\<close>
  | UpdateNotIterable \<comment> \<open>dict.update: "... object is not iterable"\<close>
  | UpdateBadElement \<comment> \<open>dict.update: "dictionary update sequence element #0 has length 1; 2 is required"\<close>
  | NotAPath \<comment> \<open>os.path.split: "expected str, bytes or os.PathLike object, not ..."\<close>
  | InvalidURL \<comment> \<open>mimetypes.guess_type, from urllib.parse: "Invalid IPv6 URL"\<close>

datatype error =
    TypeError reason
  | ValueError reason
  | DuplicateValue pyval \<comment> \<open>\<open>hyperad.errors.DuplicateValue\<close>, "Duplicated key (k)"\<close>

type_synonym ('k, 'v) dict = "('k \<times> 'v) list"

definition has_key :: "('k, 'v) dict \<Rightarrow> 'k \<Rightarrow> bool" where
  \<comment> \<open>\<open>k in d.keys()\<close>\<close>
  "has_key d k = (map_of d k \<noteq> None)"

definition dict_update :: "('k, 'v) dict \<Rightarrow> ('k, 'v) dict \<Rightarrow> ('k, 'v) dict" where
  \<comment> \<open>\<open>d.update(other)\<close>: the entries of \<open>other\<close> are stored into \<open>d\<close> one by one, in order.\<close>
  "dict_update d other = fold (\<lambda>(k, v). AList.update k v) other d"

section \<open>The constants of \<open>hyperad.constants\<close>\<close>

text \<open>
  Modelled from the spec: the module \<open>hyperad/constants.py\<close> is not among the sources.
  The spec names the content types \<open>application/x-www-form-urlencoded\<close>,
  \<open>multipart/form-data\<close>, \<open>text/plain\<close>, \<open>application/octet-stream\<close> and
  \<open>application/json\<close>, and the two header names.
\<close>

definition APPLICATION_JSON :: string where
  "APPLICATION_JSON = ''application/json''"

definition MULTIPART_FORM_DATA :: string where
  "MULTIPART_FORM_DATA = ''multipart/form-data''"

definition TEXT_PLAIN :: string where
  "TEXT_PLAIN = ''text/plain''"

definition APPLICATION_X_WWW_FORM_URLENCODED :: string where
  "APPLICATION_X_WWW_FORM_URLENCODED = ''application/x-www-form-urlencoded''"

definition APPLICATION_OCTET_STREAM :: string where
  "APPLICATION_OCTET_STREAM = ''application/octet-stream''"

definition CONTENT_TYPE :: string where
  "CONTENT_TYPE = ''Content-Type''"

definition CONTENT_DISPOSITION :: string where
  "CONTENT_DISPOSITION = ''Content-Disposition''"

section \<open>The standard library calls: \<open>json.dumps\<close>, \<open>os.path.split\<close>, \<open>str.format\<close>\<close>

text \<open>
  \<open>jsondumps allow_nan v\<close> is \<open>json.dumps(v, allow_nan=allow_nan)\<close> with the other
  options at their defaults (\<open>ensure_ascii=True\<close>, separators \<open>", "\<close> and \<open>": "\<close>,
  \<open>skipkeys=False\<close>): \<open>Inr\<close> the text, or \<open>Inl\<close> the exception the encoder raises.
  The encoder raises \<open>ValueError\<close> for a non-finite float when \<open>allow_nan\<close> is off and
  \<open>TypeError\<close> for a value it cannot serialize (here: \<open>bytes\<close>) and for a key that is not
  str, int, float, bool or None.
\<close>

fun nat_str :: "nat \<Rightarrow> string" where
  "nat_str n =
     (if n < 10 then [''0123456789'' ! n]
      else nat_str (n div 10) @ [''0123456789'' ! (n mod 10)])"

declare nat_str.simps [simp del]

definition int_str :: "int \<Rightarrow> string" where
  "int_str i = (if i < 0 then CHR ''-'' # nat_str (nat (- i)) else nat_str (nat i))"

definition hexdigit :: "nat \<Rightarrow> char" where
  "hexdigit n = ''0123456789abcdef'' ! n"

definition esc_char :: "char \<Rightarrow> string" where
  \<comment> \<open>\<open>ESCAPE_DCT\<close> of \<open>json.encoder\<close>, and \<open>\u00XX\<close> for anything outside space..tilde\<close>
  "esc_char c =
     (let n = (of_char c :: nat) in
      if n = 0x5C then [CHR 0x5C, CHR 0x5C]
      else if n = 0x22 then [CHR 0x5C, CHR 0x22]
      else if n = 0x08 then [CHR 0x5C, CHR ''b'']
      else if n = 0x0C then [CHR 0x5C, CHR ''f'']
      else if n = 0x0A then [CHR 0x5C, CHR ''n'']
      else if n = 0x0D then [CHR 0x5C, CHR ''r'']
      else if n = 0x09 then [CHR 0x5C, CHR ''t'']
      else if n < 0x20 \<or> 0x7E < n
        then [CHR 0x5C, CHR ''u'', CHR ''0'', CHR ''0'', hexdigit (n div 16), hexdigit (n mod 16)]
      else [c])"

definition encode_str :: "string \<Rightarrow> string" where
  "encode_str s = [CHR 0x22] @ concat (map esc_char s) @ [CHR 0x22]"

fun join :: "string \<Rightarrow> string list \<Rightarrow> string" where
  "join sep [] = []"
| "join sep [s] = s"
| "join sep (s # t # ss) = s @ sep @ join sep (t # ss)"

fun floatstr :: "bool \<Rightarrow> pyfloat \<Rightarrow> error + string" where
  "floatstr allow_nan (FFinite r) = Inr r"
| "floatstr allow_nan FNaN =
     (if allow_nan then Inr ''NaN'' else Inl (ValueError OutOfRangeFloat))"
| "floatstr allow_nan FPosInf =
     (if allow_nan then Inr ''Infinity'' else Inl (ValueError OutOfRangeFloat))"
| "floatstr allow_nan FNegInf =
     (if allow_nan then Inr ''-Infinity'' else Inl (ValueError OutOfRangeFloat))"

fun key_str :: "bool \<Rightarrow> pykey \<Rightarrow> error + string" where
  "key_str allow_nan (KStr s) = Inr s"
| "key_str allow_nan (KFloat f) = floatstr allow_nan f"
| "key_str allow_nan (KBool b) = Inr (if b then ''true'' else ''false'')"
| "key_str allow_nan KNone = Inr ''null''"
| "key_str allow_nan (KInt i) = Inr (int_str i)"
| "key_str allow_nan (KBytes b) = Inl (TypeError KeysMustBeBasic)"

fun jsondumps :: "bool \<Rightarrow> pyval \<Rightarrow> error + string"
  and dumps_list :: "bool \<Rightarrow> pyval list \<Rightarrow> error + string list"
  and dumps_items :: "bool \<Rightarrow> (pykey \<times> pyval) list \<Rightarrow> error + string list"
where
  "jsondumps allow_nan PNone = Inr ''null''"
| "jsondumps allow_nan (PBool b) = Inr (if b then ''true'' else ''false'')"
| "jsondumps allow_nan (PInt i) = Inr (int_str i)"
| "jsondumps allow_nan (PFloat f) = floatstr allow_nan f"
| "jsondumps allow_nan (PStr s) = Inr (encode_str s)"
| "jsondumps allow_nan (PBytes b) = Inl (TypeError ObjectNotSerializable)"
| "jsondumps allow_nan (PList xs) =
     (case dumps_list allow_nan xs of
        Inl e \<Rightarrow> Inl e
      | Inr ss \<Rightarrow> Inr (''['' @ join '', '' ss @ '']''))"
| "jsondumps allow_nan (PDict kvs) =
     (case dumps_items allow_nan kvs of
        Inl e \<Rightarrow> Inl e
      | Inr ss \<Rightarrow> Inr (''{'' @ join '', '' ss @ ''}''))"
| "dumps_list allow_nan [] = Inr []"
| "dumps_list allow_nan (x # xs) =
     (case jsondumps allow_nan x of
        Inl e \<Rightarrow> Inl e
      | Inr s \<Rightarrow>
          (case dumps_list allow_nan xs of Inl e \<Rightarrow> Inl e | Inr ss \<Rightarrow> Inr (s # ss)))"
| "dumps_items allow_nan [] = Inr []"
| "dumps_items allow_nan ((k, v) # kvs) =
     (case key_str allow_nan k of
        Inl e \<Rightarrow> Inl e
      | Inr ks \<Rightarrow>
          (case jsondumps allow_nan v of
             Inl e \<Rightarrow> Inl e
           | Inr s \<Rightarrow>
               (case dumps_items allow_nan kvs of
                  Inl e \<Rightarrow> Inl e
                | Inr ss \<Rightarrow> Inr ((encode_str ks @ '': '' @ s) # ss))))"

text \<open>
  \<open>os.path.split\<close> (POSIX) takes a \<open>str\<close> or a \<open>bytes\<close> and raises \<open>TypeError\<close> for any
  other value of the fragment; its second component is what follows the last slash, of
  the type of its argument. \<open>format_filename\<close> is \<open>"{}".format(x)\<close> for such a name: the
  text itself, or the \<open>repr\<close> of the bytes.
\<close>

datatype fnval = FnStr string | FnBytes string

fun as_path :: "pyval \<Rightarrow> error + fnval" where
  \<comment> \<open>\<open>os.fspath\<close>, the first step of \<open>os.path.split\<close>\<close>
  "as_path (PStr s) = Inr (FnStr s)"
| "as_path (PBytes b) = Inr (FnBytes b)"
| "as_path v = Inl (TypeError NotAPath)"

definition path_tail :: "string \<Rightarrow> string" where
  \<comment> \<open>everything after the last slash\<close>
  "path_tail p = rev (takeWhile (\<lambda>c. c \<noteq> CHR ''/'') (rev p))"

fun chars_of :: "fnval \<Rightarrow> string" where
  "chars_of (FnStr s) = s"
| "chars_of (FnBytes b) = b"

fun split_tail :: "fnval \<Rightarrow> fnval" where
  \<comment> \<open>\<open>os.path.split(p)[1]\<close>\<close>
  "split_tail (FnStr s) = FnStr (path_tail s)"
| "split_tail (FnBytes b) = FnBytes (path_tail b)"

definition repr_byte :: "char \<Rightarrow> char \<Rightarrow> string" where
  "repr_byte quote c =
     (let n = (of_char c :: nat) in
      if c = quote \<or> n = 0x5C then [CHR 0x5C, c]
      else if n = 0x09 then [CHR 0x5C, CHR ''t'']
      else if n = 0x0A then [CHR 0x5C, CHR ''n'']
      else if n = 0x0D then [CHR 0x5C, CHR ''r'']
      else if n < 0x20 \<or> 0x7F \<le> n
        then [CHR 0x5C, CHR ''x'', hexdigit (n div 16), hexdigit (n mod 16)]
      else [c])"

definition bytes_repr :: "string \<Rightarrow> string" where
  \<comment> \<open>\<open>repr(b)\<close>: double quotes only when the bytes hold a single quote and no double one\<close>
  "bytes_repr b =
     (let quote = (if CHR 0x27 \<in> set b \<and> CHR 0x22 \<notin> set b then CHR 0x22 else CHR 0x27)
      in CHR ''b'' # quote # concat (map (repr_byte quote) b) @ [quote])"

fun format_filename :: "fnval \<Rightarrow> string" where
  "format_filename (FnStr s) = s"
| "format_filename (FnBytes b) = bytes_repr b"

section \<open>\<open>hyperad.contents\<close>: the content classes\<close>

subsection \<open>File payloads\<close>

text \<open>
  The \<open>file\<close> argument of \<open>FileContent\<close> is any Python object. What the constructor asks
  of it: whether it is a \<open>str\<close> or \<open>bytes\<close>, an \<open>io.IOBase\<close> (text or binary), whether it
  has \<open>__iter__\<close>, and whether it has a \<open>name\<close> attribute (plain or callable). The number
  is the identity of the object. A \<open>name\<close> attribute holds any value (a file opened from
  a descriptor has an \<open>int\<close> there, one opened from a bytes path a \<open>bytes\<close>); a callable
  one returns a value or raises when called. \<open>str\<close> and \<open>bytes\<close> have no such attribute.
\<close>

datatype name_attr = NoAttr | Attr pyval | CallableAttr "error + pyval"

datatype payload =
    FStr string
  | FBytes string
  | FTextIO nat name_attr \<comment> \<open>an \<open>io.TextIOBase\<close>\<close>
  | FBinaryIO nat name_attr \<comment> \<open>any other \<open>io.IOBase\<close>\<close>
  | FIterable nat name_attr \<comment> \<open>not an \<open>io.IOBase\<close>, has \<open>__iter__\<close>\<close>
  | FObject nat name_attr \<comment> \<open>none of the above\<close>

fun is_file :: "payload \<Rightarrow> bool" where
  \<comment> \<open>\<open>any([isinstance(file, (str, bytes)), isinstance(file, io.IOBase), hasattr(file, "__iter__")])\<close>\<close>
  "is_file (FObject i a) = False"
| "is_file f = True"

fun name_attr_of :: "payload \<Rightarrow> name_attr" where
  "name_attr_of (FStr s) = NoAttr"
| "name_attr_of (FBytes b) = NoAttr"
| "name_attr_of (FTextIO i a) = a"
| "name_attr_of (FBinaryIO i a) = a"
| "name_attr_of (FIterable i a) = a"
| "name_attr_of (FObject i a) = a"

fun is_text_payload :: "payload \<Rightarrow> bool" where
  \<comment> \<open>\<open>isinstance(file, (io.TextIOBase, str))\<close>\<close>
  "is_text_payload (FStr s) = True"
| "is_text_payload (FTextIO i a) = True"
| "is_text_payload f = False"

subsection \<open>Parameter, Field, File and JSON contents\<close>

text \<open>
  An instance of one of the four concrete classes, with the attributes its constructor
  stores: \<open>_name\<close> and \<open>_value\<close>; \<open>_name\<close>, \<open>_file\<close>, \<open>_filename\<close>, \<open>_enctype\<close>;
  \<open>_name\<close> and \<open>_json\<close>.
\<close>

datatype content =
    ParamContent pyval pyval
  | FieldContent pyval pyval
  | FileContent pyval payload fnval string
  | JSONContent pyval pyval

fun is_str_or_bytes :: "pyval \<Rightarrow> bool" where
  \<comment> \<open>\<open>isinstance(x, (str, bytes))\<close>\<close>
  "is_str_or_bytes (PStr s) = True"
| "is_str_or_bytes (PBytes b) = True"
| "is_str_or_bytes v = False"

definition Content_init :: "pyval \<Rightarrow> error + pyval" where
  "Content_init name =
     (if \<not> is_str_or_bytes name then Inl (TypeError NameNotStrOrBytes) else Inr name)"



text \<open>
  \<open>mimetypes.guess_type(filename)[0]\<close> depends on the tables of the host system and on its
  Python version, and it can raise; it is the parameter \<open>guess_type\<close> of the constructor,
  from a path to the type found, if any, or the exception. \<open>resolve_filename\<close> is the first
  \<open>if\<close> of the constructor: the payload's \<open>name\<close> is read (or called) only when no
  filename was passed. The \<open>filename\<close> argument is any value, \<open>PNone\<close> by default.
\<close>

definition resolve_filename :: "payload \<Rightarrow> pyval \<Rightarrow> error + pyval" where
  "resolve_filename file filename =
     (if filename = PNone \<and> name_attr_of file \<noteq> NoAttr then
        (case name_attr_of file of
           CallableAttr r \<Rightarrow> r
         | Attr v \<Rightarrow> Inr v
         | NoAttr \<Rightarrow> Inr filename)
      else Inr filename)"

definition FileContent_init ::
  "(fnval \<Rightarrow> error + string option) \<Rightarrow> pyval \<Rightarrow> payload \<Rightarrow> pyval \<Rightarrow> error + content" where
  "FileContent_init guess_type name file filename =
     (case Content_init name of
        Inl e \<Rightarrow> Inl e
      | Inr n \<Rightarrow>
          if \<not> is_file file then Inl (TypeError FileNotFileLike)
          else
            (case resolve_filename file filename of
               Inl e \<Rightarrow> Inl e
             | Inr fname \<Rightarrow>
                 if fname = PNone then Inl (ValueError FilenameNotProvided)
                 else
                   (case as_path fname of
                      Inl e \<Rightarrow> Inl e
                    | Inr path \<Rightarrow>
                        (case guess_type path of
                           Inl e \<Rightarrow> Inl e
                         | Inr guessed \<Rightarrow>
                             Inr (FileContent n file (split_tail path)
                                    (case guessed of
                                       Some t \<Rightarrow> t
                                     | None \<Rightarrow>
                                         if is_text_payload file then TEXT_PLAIN
                                         else APPLICATION_OCTET_STREAM))))))"

definition JSONContent_init :: "pyval \<Rightarrow> pyval \<Rightarrow> error + content" where
  \<comment> \<open>\<open>except ValueError\<close> replaces a \<open>ValueError\<close> of the encoder; any other exception
      of the encoder passes through\<close>
  "JSONContent_init name json =
     (case Content_init name of
        Inl e \<Rightarrow> Inl e
      | Inr n \<Rightarrow>
          (case jsondumps False json of
             Inl (ValueError r) \<Rightarrow> Inl (ValueError JsonNotSerializable)
           | Inl e \<Rightarrow> Inl e
           | Inr s \<Rightarrow> Inr (JSONContent n json)))"

fun Content_name :: "content \<Rightarrow> pyval" where
  "Content_name (ParamContent n v) = n"
| "Content_name (FieldContent n v) = n"
| "Content_name (FileContent n f fname t) = n"
| "Content_name (JSONContent n j) = n"

fun enctype :: "content \<Rightarrow> string option" where
  "enctype (ParamContent n v) = None"
| "enctype (FieldContent n v) = Some APPLICATION_X_WWW_FORM_URLENCODED"
| "enctype (FileContent n f fname t) = Some t"
| "enctype (JSONContent n j) = Some APPLICATION_JSON"

text \<open>
  The request parameters a \<open>build()\<close> returns: a dict from keyword to argument. A file part
  is the triple \<open>(filename, payload, content-type)\<close>; its payload is the file object or,
  for a JSON part, the serialized text.
\<close>

datatype kwval =
    KwHeaders "(string, string) dict"
  | KwNone
  | KwBool bool
  | KwNum int
  | KwText string

datatype partbody = BodyFile payload | BodyText string

type_synonym filepart = "fnval option \<times> partbody \<times> string"

datatype pyarg =
    ADict "(pyval, pyval) dict"
  | AMulti "(pyval, pyval list) dict"
  | AFiles "(pyval, filepart) dict"
  | APayload payload
  | AHeaders "(string, string) dict"
  | AJson pyval
  | AKw kwval

type_synonym request_params = "(string, pyarg) dict"

definition dict_of :: "('k \<times> 'v) list \<Rightarrow> ('k, 'v) dict" where
  \<comment> \<open>a dict display \<open>{k1: v1, k2: v2, ...}\<close>\<close>
  "dict_of kvs = dict_update [] kvs"

fun build :: "content \<Rightarrow> request_params" where
  "build (ParamContent n v) = dict_of [(''params'', ADict (dict_of [(n, v)]))]"
| "build (FieldContent n v) = dict_of [(''data'', ADict (dict_of [(n, v)]))]"
| "build (FileContent n f fname t) =
     dict_of [(''data'', APayload f),
              (''headers'', AHeaders (dict_of
                 [(CONTENT_TYPE, t),
                  (CONTENT_DISPOSITION, ''attachment; filename='' @ format_filename fname)]))]"
| "build (JSONContent n j) = dict_of [(''json'', AJson j)]"

subsection \<open>The helpers of the composite\<close>

text \<open>\<open>extract_pair\<close> is \<open>_extract\<close>.\<close>

definition extract_pair :: "('k, 'v) dict \<Rightarrow> error + ('k \<times> 'v)" where
  "extract_pair d =
     (if length d \<noteq> 1 then Inl (ValueError (ExtractSize (length d)))
      else (case d of (key, val) # rest \<Rightarrow> Inr (key, val) | [] \<Rightarrow> Inl (ValueError (ExtractSize 0))))"

definition create_or_append :: "('k, 'v list) dict \<Rightarrow> 'k \<Rightarrow> 'v \<Rightarrow> ('k, 'v list) dict" where
  "create_or_append d k v =
     (if \<not> has_key d k then dict_update d (dict_of [(k, [v])])
      else AList.map_entry k (\<lambda>vs. vs @ [v]) d)"

definition create_or_raise :: "(pyval, 'v) dict \<Rightarrow> pyval \<Rightarrow> 'v \<Rightarrow> error + (pyval, 'v) dict" where
  "create_or_raise d k v =
     (if has_key d k then Inl (DuplicateValue k) else Inr (dict_update d (dict_of [(k, v)])))"

text \<open>
  \<open>add\<close> receives arbitrary Python objects: an instance of exactly one of the four classes
  (\<open>Exact\<close>), an instance of a proper subclass of one of them (\<open>Subclass\<close>, with the
  attributes of the parent), a \<open>MultiContent\<close>, or something that is no \<open>Content\<close> at all.
\<close>

datatype cls = ParamContentC | FieldContentC | FileContentC | JSONContentC | MultiContentC

record multicontent =
  mc_name :: pyval
  content_list :: "content list"
  mc_enctype :: string

datatype pyobj = Exact content | Subclass content | Multi multicontent | Other pyval

fun class_of :: "content \<Rightarrow> cls" where
  "class_of (ParamContent n v) = ParamContentC"
| "class_of (FieldContent n v) = FieldContentC"
| "class_of (FileContent n f fname t) = FileContentC"
| "class_of (JSONContent n j) = JSONContentC"

fun isinstance :: "pyobj \<Rightarrow> cls list \<Rightarrow> bool" where
  "isinstance (Exact c) ks = (class_of c \<in> set ks)"
| "isinstance (Subclass c) ks = (class_of c \<in> set ks)"
| "isinstance (Multi m) ks = (MultiContentC \<in> set ks)"
| "isinstance (Other v) ks = False"

fun type_is :: "pyobj \<Rightarrow> cls \<Rightarrow> bool" where
  \<comment> \<open>\<open>type(obj) == cls\<close>\<close>
  "type_is (Exact c) k = (class_of c = k)"
| "type_is (Subclass c) k = False"
| "type_is (Multi m) k = (k = MultiContentC)"
| "type_is (Other v) k = False"

definition exact_is_instance :: "pyobj \<Rightarrow> cls list \<Rightarrow> bool" where
  "exact_is_instance obj class_or_tuple =
     (if \<not> isinstance obj class_or_tuple then False
      else list_ex (type_is obj) class_or_tuple)"

subsection \<open>MultiContent\<close>

definition MultiContent_init :: "pyval \<Rightarrow> error + multicontent" where
  "MultiContent_init name =
     (case Content_init name of
        Inl e \<Rightarrow> Inl e
      | Inr n \<Rightarrow>
          Inr \<lparr>mc_name = n, content_list = [],
               mc_enctype = APPLICATION_X_WWW_FORM_URLENCODED\<rparr>)"

text \<open>
  \<open>add\<close> mutates the instance while it walks its arguments, so it returns the instance as
  the loop left it together with the outcome: \<open>Inr ()\<close> for \<open>return None\<close>, \<open>Inl\<close> the
  exception. The branch for an object that passed \<open>exact_is_instance\<close> and is not
  \<open>Exact\<close> is never taken (lemma \<open>exact_is_instance_iff\<close>).
\<close>

fun add :: "multicontent \<Rightarrow> pyobj list \<Rightarrow> (error + unit) \<times> multicontent" where
  "add self [] = (Inr (), self)"
| "add self (obj # contents) =
     (if \<not> exact_is_instance obj [ParamContentC, FieldContentC, FileContentC, JSONContentC]
      then (Inl (TypeError UnsupportedContent), self)
      else
        (case obj of
           Exact c \<Rightarrow>
             add ((if \<not> isinstance obj [FieldContentC, ParamContentC]
                   then self\<lparr>mc_enctype := MULTIPART_FORM_DATA\<rparr> else self)
                  \<lparr>content_list := content_list self @ [c]\<rparr>) contents
         | _ \<Rightarrow> (Inl (TypeError UnsupportedContent), self)))"

definition MultiContent_enctype :: "multicontent \<Rightarrow> string" where
  "MultiContent_enctype self = mc_enctype self"

text \<open>
  \<open>_build\<close>: the local dict \<open>parameters\<close> has the three keys \<open>params\<close>, \<open>data\<close> and \<open>files\<close>
  throughout the loop; it is a record until it is returned. In \<open>build_step\<close>,
  \<open>dict_of [(n, v)]\<close> is \<open>content.build()["params"]\<close> (or \<open>["data"]\<close>) of a Parameter
  (or Field), the payload is \<open>content.build()["data"]\<close> of a File and \<open>j\<close> is
  \<open>content.build()["json"]\<close> (lemmas \<open>build_params\<close>, \<open>build_data\<close>, \<open>build_file\<close>,
  \<open>build_json\<close>).
\<close>

record parameters =
  params :: "(pyval, pyval list) dict"
  data :: "(pyval, pyval list) dict"
  files :: "(pyval, filepart) dict"

fun build_step :: "parameters \<Rightarrow> content \<Rightarrow> error + parameters" where
  "build_step ps (ParamContent n v) =
     (case extract_pair (dict_of [(n, v)]) of
        Inl e \<Rightarrow> Inl e
      | Inr (nm, val) \<Rightarrow> Inr (ps\<lparr>params := create_or_append (params ps) nm val\<rparr>))"
| "build_step ps (FieldContent n v) =
     (case extract_pair (dict_of [(n, v)]) of
        Inl e \<Rightarrow> Inl e
      | Inr (nm, val) \<Rightarrow> Inr (ps\<lparr>data := create_or_append (data ps) nm val\<rparr>))"
| "build_step ps (FileContent n f fname t) =
     (case create_or_raise (files ps) n (Some fname, BodyFile f, t) of
        Inl e \<Rightarrow> Inl e
      | Inr fs \<Rightarrow> Inr (ps\<lparr>files := fs\<rparr>))"
| "build_step ps (JSONContent n j) =
     (case jsondumps True j of
        Inl e \<Rightarrow> Inl e
      | Inr json \<Rightarrow>
          (case create_or_raise (files ps) n (None, BodyText json, APPLICATION_JSON) of
             Inl e \<Rightarrow> Inl e
           | Inr fs \<Rightarrow> Inr (ps\<lparr>files := fs\<rparr>)))"

fun build_loop :: "parameters \<Rightarrow> content list \<Rightarrow> error + parameters" where
  "build_loop ps [] = Inr ps"
| "build_loop ps (c # cs) =
     (case build_step ps c of Inl e \<Rightarrow> Inl e | Inr ps' \<Rightarrow> build_loop ps' cs)"

definition as_dict :: "parameters \<Rightarrow> request_params" where
  "as_dict ps =
     dict_of [(''params'', AMulti (params ps)), (''data'', AMulti (data ps)),
              (''files'', AFiles (files ps))]"

definition MultiContent_build :: "multicontent \<Rightarrow> error + request_params" where
  "MultiContent_build self =
     (case build_loop \<lparr>params = [], data = [], files = []\<rparr> (content_list self) of
        Inl e \<Rightarrow> Inl e
      | Inr ps \<Rightarrow> Inr (as_dict ps))"

section \<open>\<open>hyperad.app\<close>: the request facade\<close>

text \<open>
  \<open>crequest\<close> takes any \<open>Content\<close>. What reaches the HTTP engine is the call
  \<open>self.request(method, url, **parameters)\<close>: the model returns that call (\<open>Inr\<close>), or the
  exception raised before it (\<open>Inl\<close>). The keyword arguments are a dict from keyword to
  \<open>kwval\<close>: a header dict, \<open>None\<close>, or a transport option (flag, number or text).
\<close>

datatype any_content = Single content | Composite multicontent

fun Content_build :: "any_content \<Rightarrow> error + request_params" where
  "Content_build (Single c) = Inr (build c)"
| "Content_build (Composite m) = MultiContent_build m"

datatype request = Request string string request_params

fun truthy :: "kwval \<Rightarrow> bool" where
  "truthy (KwHeaders h) = (h \<noteq> [])"
| "truthy KwNone = False"
| "truthy (KwBool b) = b"
| "truthy (KwNum n) = (n \<noteq> 0)"
| "truthy (KwText s) = (s \<noteq> [])"

definition invalid_params :: "string list" where
  "invalid_params = [''data'', ''json'', ''files'', ''params'']"

text \<open>
  \<open>headers_update\<close> is \<open>parameters["headers"].update(headers)\<close>: \<open>dict.update\<close> takes a
  dict, raises \<open>TypeError\<close> for a flag or a number and \<open>ValueError\<close> for a text. A
  \<open>build()\<close> stores nothing but a header dict under \<open>headers\<close> (lemma
  \<open>build_headers_entry\<close>), so the last case is never taken.
\<close>

definition headers_update :: "request_params \<Rightarrow> kwval \<Rightarrow> error + request_params" where
  "headers_update ps headers =
     (case map_of ps ''headers'' of
        Some (AHeaders h) \<Rightarrow>
          (case headers of
             KwHeaders oh \<Rightarrow> Inr (AList.update ''headers'' (AHeaders (dict_update h oh)) ps)
           | KwText s \<Rightarrow> Inl (ValueError UpdateBadElement)
           | _ \<Rightarrow> Inl (TypeError UpdateNotIterable))
      | _ \<Rightarrow> Inl (TypeError UpdateNotIterable))"

definition pop_headers :: "(string, kwval) dict \<Rightarrow> kwval \<times> (string, kwval) dict" where
  \<comment> \<open>\<open>kwargs.pop("headers", None)\<close>: the value and the dict without the key\<close>
  "pop_headers kwargs =
     ((case map_of kwargs ''headers'' of None \<Rightarrow> KwNone | Some h \<Rightarrow> h),
      AList.delete ''headers'' kwargs)"

definition forward :: "string \<Rightarrow> string \<Rightarrow> request_params \<Rightarrow> (string, kwval) dict \<Rightarrow> request" where
  \<comment> \<open>\<open>parameters.update(kwargs); return self.request(method, url, **parameters)\<close>\<close>
  "forward method url ps kwargs =
     Request method url (dict_update ps (map (\<lambda>(k, v). (k, AKw v)) kwargs))"

definition crequest ::
  "string \<Rightarrow> string \<Rightarrow> any_content \<Rightarrow> (string, kwval) dict \<Rightarrow> error + request" where
  "crequest method url content kwargs =
     (if list_ex (has_key kwargs) invalid_params
      then Inl (ValueError (DontUseParameters invalid_params))
      else
        (case Content_build content of
           Inl e \<Rightarrow> Inl e
         | Inr ps \<Rightarrow>
             (case pop_headers kwargs of
                (headers, kwargs') \<Rightarrow>
                  (if truthy headers \<and> has_key ps ''headers''
                   then
                     (case headers_update ps headers of
                        Inl e \<Rightarrow> Inl e
                      | Inr ps' \<Rightarrow> Inr (forward method url ps' kwargs'))
                   else Inr (forward method url ps kwargs')))))"

section \<open>A sample type table\<close>

text \<open>
  An instance of the \<open>guess_type\<close> parameter for concrete runs. For a \<open>str\<close> it answers
  with a few rows of the standard table of \<open>mimetypes\<close>, looked up by the text from the
  last dot on, and raises \<open>ValueError\<close> for the name \<open>//[\<close>, which CPython 3.11 parses as
  a malformed URL; for a \<open>bytes\<close> it finds nothing.
\<close>

definition extension :: "string \<Rightarrow> string" where
  "extension fname =
     (if CHR ''.'' \<in> set fname
      then CHR ''.'' # rev (takeWhile (\<lambda>c. c \<noteq> CHR ''.'') (rev fname)) else [])"

fun sample_guess_type :: "fnval \<Rightarrow> error + string option" where
  "sample_guess_type (FnStr fname) =
     (if fname = ''//['' then Inl (ValueError InvalidURL)
      else Inr (map_of [(''.txt'', ''text/plain''), (''.json'', ''application/json''),
                        (''.html'', ''text/html''), (''.png'', ''image/png'')]
                  (extension fname)))"
| "sample_guess_type (FnBytes fname) = Inr None"

section \<open>Notions used to state the properties\<close>

text \<open>
  \<open>supported obj\<close> is the test \<open>add\<close> applies to each argument. \<open>accepted objs\<close> are the
  members one call \<open>add(*objs)\<close> is expected to append: the supported objects in front of
  the first unsupported one. \<open>adds\<close> performs a sequence of \<open>add\<close> calls on an instance,
  whatever their outcomes.
\<close>

definition supported :: "pyobj \<Rightarrow> bool" where
  "supported obj =
     exact_is_instance obj [ParamContentC, FieldContentC, FileContentC, JSONContentC]"

fun accepted :: "pyobj list \<Rightarrow> content list" where
  "accepted [] = []"
| "accepted (Exact c # objs) = c # accepted objs"
| "accepted (obj # objs) = []"

definition adds :: "multicontent \<Rightarrow> pyobj list list \<Rightarrow> multicontent" where
  "adds self calls = fold (\<lambda>objs m. snd (add m objs)) calls self"

fun is_param_or_field :: "content \<Rightarrow> bool" where
  "is_param_or_field (ParamContent n v) = True"
| "is_param_or_field (FieldContent n v) = True"
| "is_param_or_field c = False"

text \<open>
  The values of the Parameter (Field) members named \<open>n\<close>, in the order of the members; the
  names of the File and JSON members; the check the \<open>JSONContent\<close> constructor made.
\<close>

fun param_values :: "pyval \<Rightarrow> content list \<Rightarrow> pyval list" where
  "param_values n [] = []"
| "param_values n (ParamContent n' v # cs) =
     (if n' = n then v # param_values n cs else param_values n cs)"
| "param_values n (c # cs) = param_values n cs"

fun field_values :: "pyval \<Rightarrow> content list \<Rightarrow> pyval list" where
  "field_values n [] = []"
| "field_values n (FieldContent n' v # cs) =
     (if n' = n then v # field_values n cs else field_values n cs)"
| "field_values n (c # cs) = field_values n cs"

definition part_names :: "content list \<Rightarrow> pyval list" where
  "part_names cs = map Content_name (filter (\<lambda>c. \<not> is_param_or_field c) cs)"

fun json_checked :: "content \<Rightarrow> bool" where
  "json_checked (JSONContent n j) = (JSONContent_init n j = Inr (JSONContent n j))"
| "json_checked c = True"

fun filename :: "content \<Rightarrow> fnval option" where
  \<comment> \<open>\<open>FileContent.filename()\<close>; the other classes have no such method\<close>
  "filename (FileContent n f fname t) = Some fname"
| "filename c = None"

fun is_file_content :: "any_content \<Rightarrow> bool" where
  "is_file_content (Single (FileContent n f fname t)) = True"
| "is_file_content c = False"

definition enctype_ok :: "multicontent \<Rightarrow> bool" where
  "enctype_ok m =
     (mc_enctype m =
        (if list_all is_param_or_field (content_list m)
         then APPLICATION_X_WWW_FORM_URLENCODED else MULTIPART_FORM_DATA))"

text \<open>The exceptions the JSON encoder can raise, by the \<open>allow_nan\<close> option.\<close>

definition json_error :: "bool \<Rightarrow> error \<Rightarrow> bool" where
  "json_error allow_nan e \<longleftrightarrow>
     (e = ValueError OutOfRangeFloat \<and> \<not> allow_nan) \<or>
     e = TypeError ObjectNotSerializable \<or> e = TypeError KeysMustBeBasic"

section \<open>Basic facts\<close>

lemma dict_of_single [simp]: "dict_of [(k, v)] = [(k, v)]"
  by (simp add: dict_of_def dict_update_def)

lemma extract_pair_single [simp]: "extract_pair [(k, v)] = Inr (k, v)"
  by (simp add: extract_pair_def)

lemma build_params: "map_of (build (ParamContent n v)) ''params'' = Some (ADict (dict_of [(n, v)]))"
  by simp

lemma build_data: "map_of (build (FieldContent n v)) ''data'' = Some (ADict (dict_of [(n, v)]))"
  by simp

lemma build_file: "map_of (build (FileContent n f fname t)) ''data'' = Some (APayload f)"
  by (simp add: dict_of_def dict_update_def)

lemma build_json: "map_of (build (JSONContent n j)) ''json'' = Some (AJson j)"
  by simp

lemma exact_is_instance_iff: "supported obj \<longleftrightarrow> (\<exists>c. obj = Exact c)"
proof (cases obj)
  case (Exact c)
  then show ?thesis by (cases c) (simp_all add: supported_def exact_is_instance_def)
next
  case (Subclass c)
  then show ?thesis by (simp add: supported_def exact_is_instance_def)
next
  case (Multi m)
  then show ?thesis by (simp add: supported_def exact_is_instance_def)
next
  case (Other v)
  then show ?thesis by (simp add: supported_def exact_is_instance_def)
qed

lemma add_Exact:
  "add self (Exact c # objs) =
     add \<lparr>mc_name = mc_name self, content_list = content_list self @ [c],
          mc_enctype = (if is_param_or_field c then mc_enctype self else MULTIPART_FORM_DATA)\<rparr>
       objs"
  by (cases c; cases self) (simp_all add: exact_is_instance_def)

lemma add_unsupported:
  "\<not> supported obj \<Longrightarrow> add self (obj # objs) = (Inl (TypeError UnsupportedContent), self)"
  by (simp add: supported_def)

declare add.simps(2) [simp del]

lemma add_content_list: "content_list (snd (add self objs)) = content_list self @ accepted objs"
proof (induction objs arbitrary: self)
  case Nil
  then show ?case by simp
next
  case (Cons obj objs)
  show ?case
  proof (cases obj)
    case (Exact c)
    then show ?thesis by (simp only: add_Exact Cons.IH) simp
  next
    case (Subclass c)
    then show ?thesis by (simp add: add_unsupported exact_is_instance_iff)
  next
    case (Multi m)
    then show ?thesis by (simp add: add_unsupported exact_is_instance_iff)
  next
    case (Other v)
    then show ?thesis by (simp add: add_unsupported exact_is_instance_iff)
  qed
qed

lemma add_enctype_ok: "enctype_ok self \<Longrightarrow> enctype_ok (snd (add self objs))"
proof (induction objs arbitrary: self)
  case Nil
  then show ?case by simp
next
  case (Cons obj objs)
  show ?case
  proof (cases "supported obj")
    case True
    then obtain c where c: "obj = Exact c"
      by (auto simp: exact_is_instance_iff)
    have "enctype_ok
            \<lparr>mc_name = mc_name self, content_list = content_list self @ [c],
             mc_enctype =
               (if is_param_or_field c then mc_enctype self else MULTIPART_FORM_DATA)\<rparr>"
      using Cons.prems by (simp add: enctype_ok_def)
    then show ?thesis
      unfolding c add_Exact by (rule Cons.IH)
  next
    case False
    then show ?thesis
      using Cons.prems by (simp add: add_unsupported)
  qed
qed

lemma adds_enctype_ok: "enctype_ok self \<Longrightarrow> enctype_ok (adds self calls)"
  unfolding adds_def by (induction calls arbitrary: self) (simp_all add: add_enctype_ok)

lemma adds_content_list:
  "content_list (adds self calls) = content_list self @ concat (map accepted calls)"
  unfolding adds_def by (induction calls arbitrary: self) (simp_all add: add_content_list)

lemma init_enctype_ok:
  "MultiContent_init n = Inr m0 \<Longrightarrow> enctype_ok m0 \<and> content_list m0 = []"
  by (auto simp: MultiContent_init_def enctype_ok_def split: sum.splits)

section \<open>The content type of a composite\<close>

text \<open>
  Claim C5. A freshly constructed composite, after any sequence of \<open>add\<close> calls
  (successful or not), holds exactly the members those calls accepted, and reports
  \<open>application/x-www-form-urlencoded\<close> when all of them are Parameters or Fields (in
  particular when there are none) and \<open>multipart/form-data\<close> as soon as one of them is a
  File or a JSON value. The two types differ, so adding one File to an all-Field composite
  changes the reported type.
\<close>

theorem enctype_invariant:
  assumes "MultiContent_init n = Inr m0"
  shows "content_list (adds m0 calls) = concat (map accepted calls) \<and>
         MultiContent_enctype (adds m0 calls) =
           (if list_all is_param_or_field (concat (map accepted calls))
            then APPLICATION_X_WWW_FORM_URLENCODED else MULTIPART_FORM_DATA) \<and>
         APPLICATION_X_WWW_FORM_URLENCODED \<noteq> MULTIPART_FORM_DATA"
proof -
  from assms have ok: "enctype_ok m0" and nil: "content_list m0 = []"
    by (simp_all add: init_enctype_ok)
  have cl: "content_list (adds m0 calls) = concat (map accepted calls)"
    by (simp add: adds_content_list nil)
  have "enctype_ok (adds m0 calls)"
    using ok by (rule adds_enctype_ok)
  then have "MultiContent_enctype (adds m0 calls) =
           (if list_all is_param_or_field (concat (map accepted calls))
            then APPLICATION_X_WWW_FORM_URLENCODED else MULTIPART_FORM_DATA)"
    by (simp add: enctype_ok_def MultiContent_enctype_def cl)
  moreover have "APPLICATION_X_WWW_FORM_URLENCODED \<noteq> MULTIPART_FORM_DATA"
    by (simp add: APPLICATION_X_WWW_FORM_URLENCODED_def MULTIPART_FORM_DATA_def)
  ultimately show ?thesis
    using cl by simp
qed

theorem enctype_invariant_witness:
  "MultiContent_init (PStr ''form'') =
     Inr \<lparr>mc_name = PStr ''form'', content_list = [],
          mc_enctype = APPLICATION_X_WWW_FORM_URLENCODED\<rparr> \<and>
   MultiContent_enctype
     (adds \<lparr>mc_name = PStr ''form'', content_list = [],
            mc_enctype = APPLICATION_X_WWW_FORM_URLENCODED\<rparr>
        [[Exact (FieldContent (PStr ''a'') (PStr ''1'')),
          Exact (FieldContent (PStr ''b'') (PStr ''2''))],
         [Exact (FileContent (PStr ''doc'') (FBytes ''xyz'') (FnStr ''a.bin'')
                   APPLICATION_OCTET_STREAM)]]) = MULTIPART_FORM_DATA \<and>
   APPLICATION_X_WWW_FORM_URLENCODED \<noteq> MULTIPART_FORM_DATA"
proof -
  have init: "MultiContent_init (PStr ''form'') =
     Inr \<lparr>mc_name = PStr ''form'', content_list = [],
          mc_enctype = APPLICATION_X_WWW_FORM_URLENCODED\<rparr>"
    by (simp add: MultiContent_init_def Content_init_def)
  show ?thesis
    using init
      enctype_invariant [OF init, of
        "[[Exact (FieldContent (PStr ''a'') (PStr ''1'')),
           Exact (FieldContent (PStr ''b'') (PStr ''2''))],
          [Exact (FileContent (PStr ''doc'') (FBytes ''xyz'') (FnStr ''a.bin'')
                    APPLICATION_OCTET_STREAM)]]"]
    by simp
qed

lemma add_append:
  "list_all supported xs \<Longrightarrow>
     fst (add self xs) = Inr () \<and> add self (xs @ ys) = add (snd (add self xs)) ys"
proof (induction xs arbitrary: self)
  case Nil
  then show ?case by simp
next
  case (Cons obj xs)
  then obtain c where c: "obj = Exact c"
    by (auto simp: exact_is_instance_iff)
  from Cons.prems have "list_all supported xs" by simp
  then show ?case
    unfolding c append_Cons add_Exact by (rule Cons.IH)
qed

lemma add_stops:
  "\<not> supported obj \<Longrightarrow> add self (xs @ obj # ys) = add self (xs @ [obj])"
proof (induction xs arbitrary: self)
  case Nil
  then show ?case by (simp add: add_unsupported)
next
  case (Cons x xs)
  show ?case
  proof (cases "supported x")
    case True
    then obtain c where c: "x = Exact c"
      by (auto simp: exact_is_instance_iff)
    show ?thesis
      unfolding c append_Cons add_Exact using Cons.prems by (rule Cons.IH)
  next
    case False
    then show ?thesis by (simp add: add_unsupported)
  qed
qed

section \<open>An \<open>add\<close> that meets an unsupported object\<close>

text \<open>
  Claim C8, as stated, does not hold: \<open>add\<close> appends each member as soon as it has
  checked it. Called on a fresh composite with a JSON value followed by an object that is
  no \<open>Content\<close>, it raises \<open>TypeError\<close> and leaves the JSON value in the member list and
  the content type switched to \<open>multipart/form-data\<close>.
\<close>

theorem add_not_atomic_counterexample:
  "fst (add \<lparr>mc_name = PStr ''form'', content_list = [],
              mc_enctype = APPLICATION_X_WWW_FORM_URLENCODED\<rparr>
          [Exact (JSONContent (PStr ''j'') (PInt 1)), Other PNone])
     = Inl (TypeError UnsupportedContent) \<and>
   snd (add \<lparr>mc_name = PStr ''form'', content_list = [],
              mc_enctype = APPLICATION_X_WWW_FORM_URLENCODED\<rparr>
          [Exact (JSONContent (PStr ''j'') (PInt 1)), Other PNone])
     = \<lparr>mc_name = PStr ''form'', content_list = [JSONContent (PStr ''j'') (PInt 1)],
        mc_enctype = MULTIPART_FORM_DATA\<rparr> \<and>
   snd (add \<lparr>mc_name = PStr ''form'', content_list = [],
              mc_enctype = APPLICATION_X_WWW_FORM_URLENCODED\<rparr>
          [Exact (JSONContent (PStr ''j'') (PInt 1)), Other PNone])
     \<noteq> \<lparr>mc_name = PStr ''form'', content_list = [],
          mc_enctype = APPLICATION_X_WWW_FORM_URLENCODED\<rparr>"
  by (simp add: add_Exact add_unsupported exact_is_instance_iff)

text \<open>
  Claim C8, amended. When one of the objects passed to \<open>add\<close> is unsupported, the call
  raises \<open>TypeError\<close> at the first such object and adds nothing from there on; the
  supported members in front of it have been appended, and the composite is left exactly
  as a successful \<open>add\<close> of those members leaves it (unchanged when there are none).
\<close>

theorem add_fails_at_first_unsupported:
  assumes "\<not> list_all supported objs"
  shows "fst (add self objs) = Inl (TypeError UnsupportedContent) \<and>
         snd (add self objs) = snd (add self (takeWhile supported objs)) \<and>
         fst (add self (takeWhile supported objs)) = Inr () \<and>
         content_list (snd (add self objs)) = content_list self @ accepted objs \<and>
         accepted objs = accepted (takeWhile supported objs)"
proof -
  let ?pre = "takeWhile supported objs"
  let ?post = "dropWhile supported objs"
  from assms have ne: "?post \<noteq> []"
    by (simp add: list_all_iff)
  then obtain obj rest where post: "?post = obj # rest"
    by (cases ?post) auto
  have bad: "\<not> supported obj"
    using hd_dropWhile [OF ne] post by simp
  have pre: "list_all supported ?pre"
    by (simp add: list_all_iff) (meson set_takeWhileD)
  have split: "objs = ?pre @ obj # rest"
    using post takeWhile_dropWhile_id [of supported objs] by simp
  have ok: "fst (add self ?pre) = Inr ()"
    using add_append [OF pre, of self "[]"] by simp
  have "add self objs = add self (?pre @ [obj])"
    using add_stops [OF bad, of self ?pre rest] split by simp
  also have "\<dots> = add (snd (add self ?pre)) [obj]"
    using add_append [OF pre, of self "[obj]"] by simp
  also have "\<dots> = (Inl (TypeError UnsupportedContent), snd (add self ?pre))"
    using bad by (simp add: add_unsupported)
  finally have res:
    "add self objs = (Inl (TypeError UnsupportedContent), snd (add self ?pre))" .
  have "content_list (snd (add self objs)) = content_list self @ accepted objs"
    by (rule add_content_list)
  moreover have "content_list (snd (add self objs)) = content_list self @ accepted ?pre"
    using res by (simp add: add_content_list)
  ultimately have "accepted objs = accepted ?pre"
    by simp
  then show ?thesis
    using res ok by (simp add: add_content_list)
qed

theorem add_fails_at_first_unsupported_witness:
  "\<not> list_all supported
       [Exact (FieldContent (PStr ''a'') (PStr ''1'')), Subclass (FieldContent (PStr ''b'') (PStr ''2'')),
        Exact (FieldContent (PStr ''c'') (PStr ''3''))] \<and>
   add \<lparr>mc_name = PStr ''form'', content_list = [],
         mc_enctype = APPLICATION_X_WWW_FORM_URLENCODED\<rparr>
       [Exact (FieldContent (PStr ''a'') (PStr ''1'')), Subclass (FieldContent (PStr ''b'') (PStr ''2'')),
        Exact (FieldContent (PStr ''c'') (PStr ''3''))]
     = (Inl (TypeError UnsupportedContent),
        \<lparr>mc_name = PStr ''form'', content_list = [FieldContent (PStr ''a'') (PStr ''1'')],
         mc_enctype = APPLICATION_X_WWW_FORM_URLENCODED\<rparr>)"
proof -
  have h: "\<not> list_all supported
       [Exact (FieldContent (PStr ''a'') (PStr ''1'')), Subclass (FieldContent (PStr ''b'') (PStr ''2'')),
        Exact (FieldContent (PStr ''c'') (PStr ''3''))]"
    by (simp add: exact_is_instance_iff)
  show ?thesis
    using h add_fails_at_first_unsupported [OF h, of
        "\<lparr>mc_name = PStr ''form'', content_list = [],
          mc_enctype = APPLICATION_X_WWW_FORM_URLENCODED\<rparr>"]
    by (simp add: exact_is_instance_iff add_Exact prod_eq_iff)
qed

section \<open>Building after adding\<close>



section \<open>Constructing a JSON value\<close>

lemma floatstr_errors: "floatstr a f = Inl e \<Longrightarrow> e = ValueError OutOfRangeFloat \<and> \<not> a"
  by (cases f) (auto split: if_splits)

lemma key_str_errors:
  "key_str a k = Inl e \<Longrightarrow>
     (e = ValueError OutOfRangeFloat \<and> \<not> a) \<or> e = TypeError KeysMustBeBasic"
  by (cases k) (auto dest: floatstr_errors)

lemma jsondumps_errors:
  "(\<forall>e. jsondumps a v = Inl e \<longrightarrow> json_error a e)"
  "(\<forall>e. dumps_list a vs = Inl e \<longrightarrow> json_error a e)"
  "(\<forall>e. dumps_items a kvs = Inl e \<longrightarrow> json_error a e)"
proof (induction a v and a vs and a kvs rule: jsondumps_dumps_list_dumps_items.induct)
  case (4 allow_nan f)
  then show ?case
    by (auto simp: json_error_def dest: floatstr_errors)
next
  case (12 allow_nan k v kvs)
  then show ?case
    by (auto simp: json_error_def split: sum.splits dest: key_str_errors)
qed (auto simp: json_error_def split: sum.splits)

lemma floatstr_allow: "floatstr False f = Inr s \<Longrightarrow> floatstr True f = Inr s"
  by (cases f) auto

lemma key_str_allow: "key_str False k = Inr s \<Longrightarrow> key_str True k = Inr s"
  by (cases k) (auto dest: floatstr_allow)

lemma jsondumps_allow:
  "(\<forall>s. a = False \<longrightarrow> jsondumps a v = Inr s \<longrightarrow> jsondumps True v = Inr s)"
  "(\<forall>s. a = False \<longrightarrow> dumps_list a vs = Inr s \<longrightarrow> dumps_list True vs = Inr s)"
  "(\<forall>s. a = False \<longrightarrow> dumps_items a kvs = Inr s \<longrightarrow> dumps_items True kvs = Inr s)"
proof (induction a v and a vs and a kvs rule: jsondumps_dumps_list_dumps_items.induct)
  case (4 allow_nan f)
  then show ?case
    by (auto dest: floatstr_allow)
next
  case (12 allow_nan k v kvs)
  then show ?case
    by (auto split: sum.splits dest: key_str_allow)
qed (auto split: sum.splits)

text \<open>
  Claim C6, as stated, does not hold: a \<open>bytes\<close> value is not JSON-serializable, the
  encoder raises \<open>TypeError\<close> for it, and the constructor, which catches \<open>ValueError\<close>
  only, lets that \<open>TypeError\<close> through.
\<close>

theorem json_init_type_error_counterexample:
  "jsondumps False (PBytes ''x'') = Inl (TypeError ObjectNotSerializable) \<and>
   JSONContent_init (PStr ''meta'') (PBytes ''x'') = Inl (TypeError ObjectNotSerializable)"
  by (simp add: JSONContent_init_def Content_init_def)

text \<open>
  Claim C6, amended. For a valid name, every value that fails to serialize makes the
  construction of a JSON value fail at construction time: with the constructor's
  \<open>ValueError\<close> when the encoder raises \<open>ValueError\<close> (a NaN or an infinity, with
  \<open>allow_nan\<close> off), and with the encoder's own \<open>TypeError\<close> when the value, or a key in
  it, is of a type the encoder does not serialize.
\<close>

theorem json_init_failure:
  assumes "is_str_or_bytes name" and "jsondumps False json = Inl e"
  shows "(e = ValueError OutOfRangeFloat \<and>
            JSONContent_init name json = Inl (ValueError JsonNotSerializable)) \<or>
         ((e = TypeError ObjectNotSerializable \<or> e = TypeError KeysMustBeBasic) \<and>
            JSONContent_init name json = Inl e)"
proof -
  have "json_error False e"
    using assms(2) jsondumps_errors(1) by blast
  then show ?thesis
    using assms by (auto simp: json_error_def JSONContent_init_def Content_init_def)
qed

theorem json_init_failure_witness:
  "is_str_or_bytes (PStr ''meta'') \<and>
   jsondumps False (PDict [(KStr ''a'', PList [PInt 1, PFloat FNaN])])
     = Inl (ValueError OutOfRangeFloat) \<and>
   JSONContent_init (PStr ''meta'') (PDict [(KStr ''a'', PList [PInt 1, PFloat FNaN])])
     = Inl (ValueError JsonNotSerializable)"
proof -
  have h: "jsondumps False (PDict [(KStr ''a'', PList [PInt 1, PFloat FNaN])])
     = Inl (ValueError OutOfRangeFloat)"
    by simp
  show ?thesis
    using h json_init_failure [of "PStr ''meta''" _ "ValueError OutOfRangeFloat", OF _ h]
    by simp
qed

section \<open>Constructing a File\<close>

lemma path_tail_split: "\<exists>dir. p = dir @ path_tail p \<and> (dir = [] \<or> last dir = CHR ''/'')"
proof -
  let ?P = "\<lambda>c. c \<noteq> CHR ''/''"
  let ?d = "dropWhile ?P (rev p)"
  have "rev (takeWhile ?P (rev p) @ ?d) = rev (rev p)"
    by (simp only: takeWhile_dropWhile_id)
  then have "rev ?d @ rev (takeWhile ?P (rev p)) = p"
    by (simp only: rev_append rev_rev_ident)
  then have eq: "p = rev ?d @ path_tail p"
    by (simp add: path_tail_def)
  have "rev ?d = [] \<or> last (rev ?d) = CHR ''/''"
  proof (cases "?d = []")
    case True
    then show ?thesis by simp
  next
    case False
    then have "\<not> ?P (hd ?d)"
      by (rule hd_dropWhile)
    then show ?thesis
      using False by (simp add: last_rev)
  qed
  then show ?thesis
    using eq by blast
qed

lemma path_tail_no_slash: "CHR ''/'' \<notin> set (path_tail p)"
  by (auto simp: path_tail_def dest: set_takeWhileD)

lemma split_tail_component:
  "CHR ''/'' \<notin> set (chars_of (split_tail path)) \<and>
   (\<exists>dir. chars_of path = dir @ chars_of (split_tail path) \<and> (dir = [] \<or> last dir = CHR ''/''))"
  by (cases path) (simp_all add: path_tail_no_slash path_tail_split)

lemma resolve_filename_None:
  "resolve_filename file arg = Inr PNone \<longleftrightarrow>
     arg = PNone \<and> name_attr_of file \<in> {NoAttr, Attr PNone, CallableAttr (Inr PNone)}"
  by (cases "name_attr_of file") (auto simp: resolve_filename_def)

lemma file_init_cases:
  assumes "is_str_or_bytes name" and "is_file file"
  shows "FileContent_init guess_type name file arg =
     (case resolve_filename file arg of
        Inl e \<Rightarrow> Inl e
      | Inr fname \<Rightarrow>
          if fname = PNone then Inl (ValueError FilenameNotProvided)
          else
            (case as_path fname of
               Inl e \<Rightarrow> Inl e
             | Inr path \<Rightarrow>
                 (case guess_type path of
                    Inl e \<Rightarrow> Inl e
                  | Inr guessed \<Rightarrow>
                      Inr (FileContent name file (split_tail path)
                             (case guessed of
                                Some t \<Rightarrow> t
                              | None \<Rightarrow>
                                  if is_text_payload file then TEXT_PLAIN
                                  else APPLICATION_OCTET_STREAM)))))"
  using assms by (simp add: FileContent_init_def Content_init_def)

text \<open>
  The other ways in which the constructor fails once a name is resolved: a name that is
  neither text nor bytes, such as the descriptor number a file opened from a descriptor
  reports, makes \<open>os.path.split\<close> raise \<open>TypeError\<close>; an exception of the type lookup
  passes through.
\<close>

lemma file_init_int_name:
  "FileContent_init sample_guess_type (PStr ''doc'') (FBinaryIO 0 (Attr (PInt 3))) PNone
     = Inl (TypeError NotAPath)"
  by (simp add: FileContent_init_def Content_init_def resolve_filename_def)

lemma file_init_guess_raises:
  "FileContent_init sample_guess_type (PStr ''doc'') (FBytes ''abc'') (PStr ''//['')
     = Inl (ValueError InvalidURL)"
  by (simp add: FileContent_init_def Content_init_def resolve_filename_def)

text \<open>
  Claim C7, as stated, does not hold: the constructor refuses a filename that is \<open>None\<close>,
  not one that is empty. With the explicit filename \<open>""\<close> and a \<open>bytes\<close> payload (which
  reports no name) no non-empty name can be resolved, and the construction succeeds with
  the empty filename.
\<close>

theorem file_init_empty_filename_counterexample:
  "resolve_filename (FBytes ''abc'') (PStr '''') = Inr (PStr '''') \<and>
   FileContent_init sample_guess_type (PStr ''doc'') (FBytes ''abc'') (PStr '''')
     = Inr (FileContent (PStr ''doc'') (FBytes ''abc'') (FnStr '''') APPLICATION_OCTET_STREAM)"
  by (simp add: FileContent_init_def Content_init_def resolve_filename_def
      extension_def path_tail_def)

text \<open>
  Claim C7, amended. For a valid name and a file-like payload, constructing a File fails
  with \<open>ValueError\<close> whenever no filename is resolved at all: no explicit filename was
  passed and the payload has no \<open>name\<close> attribute, or one that is (or returns) \<open>None\<close>.
  A resolved name is not refused for being empty: whenever it is a text or bytes for which
  the type lookup returns, the construction succeeds. When the construction succeeds, the
  stored filename is the final path component of the resolved name: what follows its last
  slash, all of it when it has none.
\<close>

theorem file_init_filename:
  assumes "is_str_or_bytes name" and "is_file file"
  shows "(resolve_filename file arg = Inr PNone \<longleftrightarrow>
            arg = PNone \<and> name_attr_of file \<in> {NoAttr, Attr PNone, CallableAttr (Inr PNone)}) \<and>
         (resolve_filename file arg = Inr PNone \<longrightarrow>
            FileContent_init guess_type name file arg = Inl (ValueError FilenameNotProvided)) \<and>
         (\<forall>fname path guessed.
            resolve_filename file arg = Inr fname \<and> as_path fname = Inr path \<and>
            guess_type path = Inr guessed \<longrightarrow>
            (\<exists>c. FileContent_init guess_type name file arg = Inr c)) \<and>
         (\<forall>c. FileContent_init guess_type name file arg = Inr c \<longrightarrow>
            (\<exists>fname path.
               resolve_filename file arg = Inr fname \<and> as_path fname = Inr path \<and>
               filename c = Some (split_tail path) \<and>
               CHR ''/'' \<notin> set (chars_of (split_tail path)) \<and>
               (\<exists>dir. chars_of path = dir @ chars_of (split_tail path) \<and>
                      (dir = [] \<or> last dir = CHR ''/''))))"
proof (intro conjI allI impI)
  show "resolve_filename file arg = Inr PNone \<longleftrightarrow>
          arg = PNone \<and> name_attr_of file \<in> {NoAttr, Attr PNone, CallableAttr (Inr PNone)}"
    by (rule resolve_filename_None)
next
  assume "resolve_filename file arg = Inr PNone"
  then show "FileContent_init guess_type name file arg = Inl (ValueError FilenameNotProvided)"
    by (simp add: file_init_cases [OF assms])
next
  fix fname path guessed
  assume a: "resolve_filename file arg = Inr fname \<and> as_path fname = Inr path \<and>
            guess_type path = Inr guessed"
  then have "fname \<noteq> PNone"
    by auto
  then show "\<exists>c. FileContent_init guess_type name file arg = Inr c"
    using a by (simp add: file_init_cases [OF assms])
next
  fix c
  assume c: "FileContent_init guess_type name file arg = Inr c"
  then obtain fname where r: "resolve_filename file arg = Inr fname" and n: "fname \<noteq> PNone"
    by (auto simp: file_init_cases [OF assms] split: sum.splits if_splits)
  from c r n obtain path where p: "as_path fname = Inr path"
    by (auto simp: file_init_cases [OF assms] split: sum.splits)
  from c r n p have "filename c = Some (split_tail path)"
    by (auto simp: file_init_cases [OF assms] split: sum.splits)
  then show "\<exists>fname path.
               resolve_filename file arg = Inr fname \<and> as_path fname = Inr path \<and>
               filename c = Some (split_tail path) \<and>
               CHR ''/'' \<notin> set (chars_of (split_tail path)) \<and>
               (\<exists>dir. chars_of path = dir @ chars_of (split_tail path) \<and>
                      (dir = [] \<or> last dir = CHR ''/''))"
    using r p split_tail_component [of path] by blast
qed

theorem file_init_filename_witness:
  "is_str_or_bytes (PStr ''doc'') \<and>
   is_file (FTextIO 0 (Attr (PStr ''/srv/in/report.txt''))) \<and>
   is_file (FBytes ''abc'') \<and>
   resolve_filename (FTextIO 0 (Attr (PStr ''/srv/in/report.txt''))) PNone
     = Inr (PStr ''/srv/in/report.txt'') \<and>
   sample_guess_type (FnStr ''/srv/in/report.txt'') = Inr (Some ''text/plain'') \<and>
   FileContent_init sample_guess_type (PStr ''doc'')
       (FTextIO 0 (Attr (PStr ''/srv/in/report.txt''))) PNone
     = Inr (FileContent (PStr ''doc'') (FTextIO 0 (Attr (PStr ''/srv/in/report.txt'')))
              (FnStr ''report.txt'') ''text/plain'') \<and>
   resolve_filename (FBytes ''abc'') PNone = Inr PNone \<and>
   FileContent_init sample_guess_type (PStr ''doc'') (FBytes ''abc'') PNone
     = Inl (ValueError FilenameNotProvided)"
proof -
  let ?f = "FTextIO 0 (Attr (PStr ''/srv/in/report.txt''))"
  have r: "resolve_filename ?f PNone = Inr (PStr ''/srv/in/report.txt'')"
    by (simp add: resolve_filename_def)
  have g: "sample_guess_type (FnStr ''/srv/in/report.txt'') = Inr (Some ''text/plain'')"
    by (simp add: extension_def)
  have n: "resolve_filename (FBytes ''abc'') PNone = Inr PNone"
    by (simp add: resolve_filename_def)
  note w1 = file_init_filename [of "PStr ''doc''" ?f PNone sample_guess_type]
  note w2 = file_init_filename [of "PStr ''doc''" "FBytes ''abc''" PNone sample_guess_type]
  from w1 r g obtain c where c: "FileContent_init sample_guess_type (PStr ''doc'') ?f PNone = Inr c"
    by auto
  with w1 r have "filename c = Some (split_tail (FnStr ''/srv/in/report.txt''))"
    by auto
  then have "filename c = Some (FnStr ''report.txt'')"
    by (simp add: path_tail_def)
  moreover have "FileContent_init sample_guess_type (PStr ''doc'') ?f PNone
     = Inr (FileContent (PStr ''doc'') ?f (FnStr ''report.txt'') ''text/plain'')"
    by (simp add: FileContent_init_def Content_init_def resolve_filename_def extension_def
        path_tail_def)
  moreover have "FileContent_init sample_guess_type (PStr ''doc'') (FBytes ''abc'') PNone
     = Inl (ValueError FilenameNotProvided)"
    using w2 n by simp
  ultimately show ?thesis
    using r g n by simp
qed

section \<open>The request facade\<close>

lemma map_of_dict_update:
  "distinct (map fst other) \<Longrightarrow> map_of (dict_update d other) = map_of d ++ map_of other"
proof (induction other arbitrary: d)
  case Nil
  then show ?case by (simp add: dict_update_def)
next
  case (Cons kv other)
  obtain k v where kv: "kv = (k, v)" by (cases kv)
  from Cons.prems have d: "distinct (map fst other)" and nk: "k \<notin> fst ` set other"
    by (auto simp: kv)
  have "map_of (dict_update d (kv # other)) = map_of (dict_update (AList.update k v d) other)"
    by (simp add: dict_update_def kv)
  also have "\<dots> = map_of (AList.update k v d) ++ map_of other"
    using d by (rule Cons.IH)
  also have "\<dots> = map_of d ++ map_of (kv # other)"
  proof
    fix x
    show "(map_of (AList.update k v d) ++ map_of other) x = (map_of d ++ map_of (kv # other)) x"
    proof -
      have "map_of other k = None"
        using nk by (simp add: map_of_eq_None_iff)
      then show ?thesis
        by (simp add: kv map_add_def update_conv' split: option.splits)
    qed
  qed
  finally show ?case .
qed

lemma map_of_dict_update_other:
  "k \<notin> fst ` set other \<Longrightarrow> map_of (dict_update d other) k = map_of d k"
proof (induction other arbitrary: d)
  case Nil
  then show ?case by (simp add: dict_update_def)
next
  case (Cons kv other)
  obtain k' v where kv: "kv = (k', v)" by (cases kv)
  from Cons.prems have ne: "k' \<noteq> k" and nk: "k \<notin> fst ` set other"
    by (auto simp: kv)
  have "map_of (dict_update d (kv # other)) k = map_of (dict_update (AList.update k' v d) other) k"
    by (simp add: dict_update_def kv)
  also have "\<dots> = map_of (AList.update k' v d) k"
    using nk by (rule Cons.IH)
  also have "\<dots> = map_of d k"
    using ne by (simp add: update_conv')
  finally show ?case .
qed

lemma forward_lookup:
  "forward method url ps (AList.delete k kwargs) = Request method url fwd \<Longrightarrow>
     map_of fwd k = map_of ps k"
proof -
  assume "forward method url ps (AList.delete k kwargs) = Request method url fwd"
  then have fwd: "fwd = dict_update ps (map (\<lambda>(k, v). (k, AKw v)) (AList.delete k kwargs))"
    by (simp add: forward_def)
  have "k \<notin> fst ` set (map (\<lambda>(k, v). (k, AKw v)) (AList.delete k kwargs))"
    by (auto simp: AList.delete_eq)
  then show ?thesis
    unfolding fwd by (rule map_of_dict_update_other)
qed

lemma crequest_valid:
  assumes "\<not> list_ex (has_key kwargs) invalid_params" and "Content_build content = Inr ps"
  shows "crequest method url content kwargs =
     (let headers = fst (pop_headers kwargs); kwargs' = AList.delete ''headers'' kwargs in
      if truthy headers \<and> has_key ps ''headers''
      then (case headers_update ps headers of
              Inl e \<Rightarrow> Inl e
            | Inr ps' \<Rightarrow> Inr (forward method url ps' kwargs'))
      else Inr (forward method url ps kwargs'))"
  using assms by (simp add: crequest_def pop_headers_def Let_def)

lemma build_loop_as_dict_no_headers: "\<not> has_key (as_dict ps) ''headers''"
  by (simp add: as_dict_def dict_of_def dict_update_def has_key_def)

lemma build_headers_entry:
  assumes "Content_build content = Inr ps" and "map_of ps ''headers'' = Some a"
  shows "\<exists>h. a = AHeaders h"
proof (cases content)
  case (Single c)
  then show ?thesis
    using assms by (cases c) (auto simp: dict_of_def dict_update_def split: if_splits)
next
  case (Composite m)
  then obtain qs where "ps = as_dict qs"
    using assms(1) by (auto simp: MultiContent_build_def split: sum.splits)
  then show ?thesis
    using assms(2) by (simp add: as_dict_def dict_of_def dict_update_def)
qed

lemma no_headers_unless_file:
  assumes "Content_build content = Inr ps" and "\<not> is_file_content content"
  shows "\<not> has_key ps ''headers''"
proof (cases content)
  case (Single c)
  then show ?thesis
    using assms by (cases c) (auto simp: has_key_def dict_of_def dict_update_def)
next
  case (Composite m)
  then show ?thesis
    using assms
    by (auto simp: MultiContent_build_def build_loop_as_dict_no_headers split: sum.splits)
qed

text \<open>
  Claim C4. Whenever the keyword arguments of \<open>crequest\<close> contain one of \<open>data\<close>, \<open>json\<close>,
  \<open>files\<close>, \<open>params\<close>, the call raises \<open>ValueError\<close>, whose message lists the four
  reserved keywords (the offending one among them), whatever the content is: the check
  precedes \<open>content.build()\<close>, so even a content whose \<open>build()\<close> would raise is not built,
  and nothing is forwarded to the HTTP engine.
\<close>

theorem invalid_overrides_rejected:
  assumes "k \<in> {''data'', ''json'', ''files'', ''params''}" and "has_key kwargs k"
  shows "crequest method url content kwargs = Inl (ValueError (DontUseParameters invalid_params)) \<and>
         k \<in> set invalid_params"
  using assms by (auto simp: crequest_def invalid_params_def)

theorem invalid_overrides_rejected_witness:
  "''data'' \<in> {''data'', ''json'', ''files'', ''params''} \<and>
   has_key [(''timeout'', KwNum 3), (''data'', KwText ''x'')] ''data'' \<and>
   Content_build
     (Composite \<lparr>mc_name = PStr ''form'',
                 content_list = [JSONContent (PStr ''j'') (PInt 1),
                                 JSONContent (PStr ''j'') (PInt 2)],
                 mc_enctype = MULTIPART_FORM_DATA\<rparr>) = Inl (DuplicateValue (PStr ''j'')) \<and>
   crequest ''POST'' ''http://localhost:8000/''
     (Composite \<lparr>mc_name = PStr ''form'',
                 content_list = [JSONContent (PStr ''j'') (PInt 1),
                                 JSONContent (PStr ''j'') (PInt 2)],
                 mc_enctype = MULTIPART_FORM_DATA\<rparr>)
     [(''timeout'', KwNum 3), (''data'', KwText ''x'')]
     = Inl (ValueError (DontUseParameters [''data'', ''json'', ''files'', ''params'']))"
proof -
  have h: "has_key [(''timeout'', KwNum 3), (''data'', KwText ''x'')] ''data''"
    by (simp add: has_key_def)
  have b: "Content_build
     (Composite \<lparr>mc_name = PStr ''form'',
                 content_list = [JSONContent (PStr ''j'') (PInt 1),
                                 JSONContent (PStr ''j'') (PInt 2)],
                 mc_enctype = MULTIPART_FORM_DATA\<rparr>) = Inl (DuplicateValue (PStr ''j''))"
    by (simp add: MultiContent_build_def create_or_raise_def has_key_def int_str_def
        nat_str.simps dict_update_def)
  show ?thesis
    using h b
      invalid_overrides_rejected [of "''data''" _ "''POST''" "''http://localhost:8000/''"
        "Composite \<lparr>mc_name = PStr ''form'',
                 content_list = [JSONContent (PStr ''j'') (PInt 1),
                                 JSONContent (PStr ''j'') (PInt 2)],
                 mc_enctype = MULTIPART_FORM_DATA\<rparr>", OF _ h]
    by (simp add: invalid_params_def)
qed

text \<open>
  Claim C10. Only a File content builds a \<open>headers\<close> entry. When the built parameters have
  none, a \<open>headers\<close> keyword argument (whatever its value) is popped from the keyword
  arguments and used nowhere: the call raises nothing and forwards the built parameters
  updated with the remaining keyword arguments, with no \<open>headers\<close> entry.
\<close>

theorem headers_override_dropped:
  assumes "\<not> list_ex (has_key kwargs) invalid_params" and "Content_build content = Inr ps"
  shows "(\<not> is_file_content content \<longrightarrow> \<not> has_key ps ''headers'') \<and>
         (\<not> has_key ps ''headers'' \<longrightarrow>
            (\<exists>fwd. crequest method url content kwargs = Inr (Request method url fwd) \<and>
                   fwd = dict_update ps (map (\<lambda>(k, v). (k, AKw v)) (AList.delete ''headers'' kwargs)) \<and>
                   \<not> has_key fwd ''headers''))"
proof (intro conjI impI)
  assume "\<not> is_file_content content"
  with assms(2) show "\<not> has_key ps ''headers''"
    by (rule no_headers_unless_file)
next
  assume nh: "\<not> has_key ps ''headers''"
  let ?fwd = "dict_update ps (map (\<lambda>(k, v). (k, AKw v)) (AList.delete ''headers'' kwargs))"
  have c: "crequest method url content kwargs = Inr (Request method url ?fwd)"
    using nh by (simp add: crequest_valid [OF assms] forward_def Let_def)
  have "forward method url ps (AList.delete ''headers'' kwargs) = Request method url ?fwd"
    by (simp add: forward_def)
  then have "map_of ?fwd ''headers'' = map_of ps ''headers''"
    by (rule forward_lookup)
  then have "\<not> has_key ?fwd ''headers''"
    using nh by (simp add: has_key_def)
  then show "\<exists>fwd. crequest method url content kwargs = Inr (Request method url fwd) \<and>
                   fwd = ?fwd \<and> \<not> has_key fwd ''headers''"
    using c by simp
qed

theorem headers_override_dropped_witness:
  "\<not> list_ex (has_key [(''headers'', KwHeaders [(''X-Extra'', ''1'')]), (''timeout'', KwNum 3)])
       invalid_params \<and>
   Content_build (Single (FieldContent (PStr ''f'') (PStr ''2'')))
     = Inr [(''data'', ADict [(PStr ''f'', PStr ''2'')])] \<and>
   \<not> has_key [(''data'', ADict [(PStr ''f'', PStr ''2'')])] ''headers'' \<and>
   crequest ''POST'' ''http://localhost:8000/'' (Single (FieldContent (PStr ''f'') (PStr ''2'')))
     [(''headers'', KwHeaders [(''X-Extra'', ''1'')]), (''timeout'', KwNum 3)]
     = Inr (Request ''POST'' ''http://localhost:8000/''
              [(''data'', ADict [(PStr ''f'', PStr ''2'')]), (''timeout'', AKw (KwNum 3))])"
proof -
  have v: "\<not> list_ex (has_key [(''headers'', KwHeaders [(''X-Extra'', ''1'')]),
                                (''timeout'', KwNum 3)]) invalid_params"
    by (simp add: invalid_params_def has_key_def)
  have b: "Content_build (Single (FieldContent (PStr ''f'') (PStr ''2'')))
     = Inr [(''data'', ADict [(PStr ''f'', PStr ''2'')])]"
    by simp
  have n: "\<not> has_key [(''data'', ADict [(PStr ''f'', PStr ''2'')])] ''headers''"
    by (simp add: has_key_def)
  show ?thesis
    using v b n
      headers_override_dropped [OF v b, of "''POST''" "''http://localhost:8000/''"]
    by (simp add: dict_update_def)
qed

section \<open>Merging the headers\<close>

text \<open>
  Claim C3. For keyword arguments free of the reserved keywords and a content that
  builds: when the built parameters hold a header dict and the keyword arguments hold a
  header dict too, the forwarded \<open>headers\<close> are the built ones updated with the override's
  entries, so every key of the override carries the override's value and every other key
  keeps the built value; when the keyword arguments hold no \<open>headers\<close>, the forwarded
  \<open>headers\<close> entry is the built one, or absent when the content built none.
\<close>

theorem headers_merged:
  assumes "\<not> list_ex (has_key kwargs) invalid_params" and "Content_build content = Inr ps"
  shows "(\<forall>ch oh. map_of ps ''headers'' = Some (AHeaders ch) \<and>
             map_of kwargs ''headers'' = Some (KwHeaders oh) \<and> distinct (map fst oh) \<longrightarrow>
            (\<exists>fwd mh. crequest method url content kwargs = Inr (Request method url fwd) \<and>
                 map_of fwd ''headers'' = Some (AHeaders mh) \<and>
                 map_of mh = map_of ch ++ map_of oh)) \<and>
         (map_of kwargs ''headers'' = None \<longrightarrow>
            (\<exists>fwd. crequest method url content kwargs = Inr (Request method url fwd) \<and>
                 map_of fwd ''headers'' = map_of ps ''headers''))"
proof (intro conjI allI impI)
  fix ch oh
  assume a: "map_of ps ''headers'' = Some (AHeaders ch) \<and>
             map_of kwargs ''headers'' = Some (KwHeaders oh) \<and> distinct (map fst oh)"
  let ?kw = "AList.delete ''headers'' kwargs"
  have hk: "has_key ps ''headers''"
    using a by (simp add: has_key_def)
  have mh: "map_of (dict_update ch oh) = map_of ch ++ map_of oh"
    using a by (simp add: map_of_dict_update)
  show "\<exists>fwd mh. crequest method url content kwargs = Inr (Request method url fwd) \<and>
                 map_of fwd ''headers'' = Some (AHeaders mh) \<and>
                 map_of mh = map_of ch ++ map_of oh"
  proof (cases "oh = []")
    case True
    obtain fwd where f: "forward method url ps ?kw = Request method url fwd"
      by (simp add: forward_def)
    have "crequest method url content kwargs = Inr (Request method url fwd)"
      using a True f by (simp add: crequest_valid [OF assms] pop_headers_def Let_def)
    moreover have "map_of fwd ''headers'' = Some (AHeaders ch)"
      using forward_lookup [OF f] a by simp
    ultimately show ?thesis
      using True by auto
  next
    case False
    let ?ps' = "AList.update ''headers'' (AHeaders (dict_update ch oh)) ps"
    obtain fwd where f: "forward method url ?ps' ?kw = Request method url fwd"
      by (simp add: forward_def)
    have "crequest method url content kwargs = Inr (Request method url fwd)"
      using a False f hk
      by (simp add: crequest_valid [OF assms] pop_headers_def Let_def headers_update_def)
    moreover have "map_of fwd ''headers'' = Some (AHeaders (dict_update ch oh))"
      using forward_lookup [OF f] by (simp add: update_conv')
    ultimately show ?thesis
      using mh by blast
  qed
next
  assume n: "map_of kwargs ''headers'' = None"
  let ?kw = "AList.delete ''headers'' kwargs"
  obtain fwd where f: "forward method url ps ?kw = Request method url fwd"
    by (simp add: forward_def)
  have "crequest method url content kwargs = Inr (Request method url fwd)"
    using n f by (simp add: crequest_valid [OF assms] pop_headers_def Let_def)
  then show "\<exists>fwd. crequest method url content kwargs = Inr (Request method url fwd) \<and>
                 map_of fwd ''headers'' = map_of ps ''headers''"
    using forward_lookup [OF f] by blast
qed

theorem headers_merged_witness:
  "\<not> list_ex (has_key [(''headers'', KwHeaders [(''X-Extra'', ''1''), (''Content-Type'', ''x/y'')]),
                        (''timeout'', KwNum 3)]) invalid_params \<and>
   Content_build (Single (FileContent (PStr ''doc'') (FBytes ''abc'') (FnStr ''a.txt'') ''text/plain''))
     = Inr [(''data'', APayload (FBytes ''abc'')),
            (''headers'', AHeaders [(''Content-Type'', ''text/plain''),
                                    (''Content-Disposition'', ''attachment; filename=a.txt'')])] \<and>
   (\<exists>fwd mh.
      crequest ''POST'' ''http://localhost:8000/''
        (Single (FileContent (PStr ''doc'') (FBytes ''abc'') (FnStr ''a.txt'') ''text/plain''))
        [(''headers'', KwHeaders [(''X-Extra'', ''1''), (''Content-Type'', ''x/y'')]),
         (''timeout'', KwNum 3)]
        = Inr (Request ''POST'' ''http://localhost:8000/'' fwd) \<and>
      map_of fwd ''headers'' = Some (AHeaders mh) \<and>
      map_of mh ''X-Extra'' = Some ''1'' \<and>
      map_of mh ''Content-Type'' = Some ''x/y'' \<and>
      map_of mh ''Content-Disposition'' = Some ''attachment; filename=a.txt'')"
proof -
  have v: "\<not> list_ex (has_key [(''headers'', KwHeaders [(''X-Extra'', ''1''),
                                   (''Content-Type'', ''x/y'')]),
                                (''timeout'', KwNum 3)]) invalid_params"
    by (simp add: invalid_params_def has_key_def)
  have b: "Content_build (Single (FileContent (PStr ''doc'') (FBytes ''abc'') (FnStr ''a.txt'') ''text/plain''))
     = Inr [(''data'', APayload (FBytes ''abc'')),
            (''headers'', AHeaders [(''Content-Type'', ''text/plain''),
                                    (''Content-Disposition'', ''attachment; filename=a.txt'')])]"
    by (simp add: dict_of_def dict_update_def CONTENT_TYPE_def CONTENT_DISPOSITION_def)
  from headers_merged [OF v b, of "''POST''" "''http://localhost:8000/''"]
  have "\<exists>fwd mh.
      crequest ''POST'' ''http://localhost:8000/''
        (Single (FileContent (PStr ''doc'') (FBytes ''abc'') (FnStr ''a.txt'') ''text/plain''))
        [(''headers'', KwHeaders [(''X-Extra'', ''1''), (''Content-Type'', ''x/y'')]),
         (''timeout'', KwNum 3)]
        = Inr (Request ''POST'' ''http://localhost:8000/'' fwd) \<and>
      map_of fwd ''headers'' = Some (AHeaders mh) \<and>
      map_of mh = map_of [(''Content-Type'', ''text/plain''),
                          (''Content-Disposition'', ''attachment; filename=a.txt'')]
                  ++ map_of [(''X-Extra'', ''1''), (''Content-Type'', ''x/y'')]"
    by simp
  then obtain fwd mh where
    c: "crequest ''POST'' ''http://localhost:8000/''
        (Single (FileContent (PStr ''doc'') (FBytes ''abc'') (FnStr ''a.txt'') ''text/plain''))
        [(''headers'', KwHeaders [(''X-Extra'', ''1''), (''Content-Type'', ''x/y'')]),
         (''timeout'', KwNum 3)]
        = Inr (Request ''POST'' ''http://localhost:8000/'' fwd)"
    and f: "map_of fwd ''headers'' = Some (AHeaders mh)"
    and m: "map_of mh = map_of [(''Content-Type'', ''text/plain''),
                          (''Content-Disposition'', ''attachment; filename=a.txt'')]
                  ++ map_of [(''X-Extra'', ''1''), (''Content-Type'', ''x/y'')]"
    by blast
  have "map_of mh ''X-Extra'' = Some ''1'' \<and> map_of mh ''Content-Type'' = Some ''x/y'' \<and>
        map_of mh ''Content-Disposition'' = Some ''attachment; filename=a.txt''"
    by (simp add: m)
  then show ?thesis
    using v b c f by blast
qed

section \<open>Building a composite\<close>

lemma map_of_create_or_append:
  "map_of (create_or_append d k v) k' =
     (if k' = k then Some ((case map_of d k of None \<Rightarrow> [] | Some vs \<Rightarrow> vs) @ [v])
      else map_of d k')"
  by (auto simp: create_or_append_def has_key_def dict_update_def update_conv' map_of_map_entry)

lemma create_or_raise_cases:
  "create_or_raise d k v =
     (if has_key d k then Inl (DuplicateValue k) else Inr (AList.update k v d))"
  by (simp add: create_or_raise_def dict_update_def)

lemma has_key_update: "has_key (AList.update k v d) k' \<longleftrightarrow> k' = k \<or> has_key d k'"
  by (simp add: has_key_def update_conv')

lemma json_checked_dumps:
  "json_checked (JSONContent n j) \<Longrightarrow> \<exists>s. jsondumps True j = Inr s"
proof -
  assume "json_checked (JSONContent n j)"
  then obtain s where "jsondumps False j = Inr s"
    by (cases "jsondumps False j")
       (auto simp: JSONContent_init_def split: sum.splits error.splits)
  then show ?thesis
    using jsondumps_allow(1) by blast
qed

lemma build_step_param_field:
  "is_param_or_field c \<Longrightarrow> \<exists>ps'. build_step ps c = Inr ps' \<and> files ps' = files ps"
  by (cases c) auto

lemma build_step_part:
  assumes "\<not> is_param_or_field c" and "json_checked c"
  shows "(has_key (files ps) (Content_name c) \<longrightarrow>
            build_step ps c = Inl (DuplicateValue (Content_name c))) \<and>
         (\<not> has_key (files ps) (Content_name c) \<longrightarrow>
            (\<exists>ps'. build_step ps c = Inr ps' \<and>
               (\<forall>k. has_key (files ps') k \<longleftrightarrow> k = Content_name c \<or> has_key (files ps) k)))"
proof (cases c)
  case (FileContent n f fname t)
  then show ?thesis
    by (simp add: create_or_raise_cases has_key_update)
next
  case (JSONContent n j)
  then obtain s where "jsondumps True j = Inr s"
    using assms(2) json_checked_dumps by blast
  then show ?thesis
    using JSONContent by (simp add: create_or_raise_cases has_key_update)
qed (use assms in simp_all)

lemma part_names_Cons:
  "part_names (c # cs) =
     (if is_param_or_field c then part_names cs else Content_name c # part_names cs)"
  by (simp add: part_names_def)

lemma build_loop_ok:
  assumes "list_all json_checked cs" and "distinct (part_names cs)"
    and "\<forall>k \<in> set (part_names cs). \<not> has_key (files ps) k"
  shows "\<exists>ps'. build_loop ps cs = Inr ps'"
  using assms
proof (induction cs arbitrary: ps)
  case Nil
  then show ?case by simp
next
  case (Cons c cs)
  show ?case
  proof (cases "is_param_or_field c")
    case True
    then obtain ps' where s: "build_step ps c = Inr ps'" and f: "files ps' = files ps"
      using build_step_param_field by blast
    have "\<exists>ps''. build_loop ps' cs = Inr ps''"
      using Cons.prems True by (intro Cons.IH) (simp_all add: part_names_Cons f)
    then show ?thesis
      using s by simp
  next
    case False
    have nk: "\<not> has_key (files ps) (Content_name c)"
      using Cons.prems(3) False by (simp add: part_names_Cons)
    have "json_checked c" using Cons.prems(1) by simp
    from build_step_part [OF False this, of ps] nk
    obtain ps' where s: "build_step ps c = Inr ps'"
      and f: "\<forall>k. has_key (files ps') k \<longleftrightarrow> k = Content_name c \<or> has_key (files ps) k"
      by blast
    have "\<exists>ps''. build_loop ps' cs = Inr ps''"
      using Cons.prems False by (intro Cons.IH) (auto simp: part_names_Cons f)
    then show ?thesis
      using s by simp
  qed
qed

lemma build_loop_dup:
  assumes "list_all json_checked cs"
    and "\<not> (distinct (part_names cs) \<and> (\<forall>k \<in> set (part_names cs). \<not> has_key (files ps) k))"
  shows "\<exists>k. build_loop ps cs = Inl (DuplicateValue k) \<and>
             (2 \<le> count_list (part_names cs) k \<or>
              (has_key (files ps) k \<and> k \<in> set (part_names cs)))"
  using assms
proof (induction cs arbitrary: ps)
  case Nil
  then show ?case by (simp add: part_names_def)
next
  case (Cons c cs)
  show ?case
  proof (cases "is_param_or_field c")
    case True
    then obtain ps' where s: "build_step ps c = Inr ps'" and f: "files ps' = files ps"
      using build_step_param_field by blast
    have "\<exists>k. build_loop ps' cs = Inl (DuplicateValue k) \<and>
             (2 \<le> count_list (part_names cs) k \<or>
              (has_key (files ps') k \<and> k \<in> set (part_names cs)))"
      using Cons.prems True by (intro Cons.IH) (simp_all add: part_names_Cons f)
    then show ?thesis
      using s True by (simp add: part_names_Cons f)
  next
    case False
    have jc: "json_checked c" using Cons.prems(1) by simp
    note step = build_step_part [OF False jc, of ps]
    show ?thesis
    proof (cases "has_key (files ps) (Content_name c)")
      case True
      then have "build_step ps c = Inl (DuplicateValue (Content_name c))"
        using step by blast
      then show ?thesis
        using True False by (auto simp: part_names_Cons)
    next
      case nk: False
      then obtain ps' where s: "build_step ps c = Inr ps'"
        and f: "\<forall>k. has_key (files ps') k \<longleftrightarrow> k = Content_name c \<or> has_key (files ps) k"
        using step by blast
      have "\<not> (distinct (part_names cs) \<and> (\<forall>k \<in> set (part_names cs). \<not> has_key (files ps') k))"
        using Cons.prems(2) False nk by (auto simp: part_names_Cons f)
      with Cons.prems(1) have "\<exists>k. build_loop ps' cs = Inl (DuplicateValue k) \<and>
             (2 \<le> count_list (part_names cs) k \<or>
              (has_key (files ps') k \<and> k \<in> set (part_names cs)))"
        by (intro Cons.IH) simp_all
      then obtain k where b: "build_loop ps' cs = Inl (DuplicateValue k)"
        and k: "2 \<le> count_list (part_names cs) k \<or>
              (has_key (files ps') k \<and> k \<in> set (part_names cs))"
        by blast
      have "2 \<le> count_list (part_names (c # cs)) k \<or>
              (has_key (files ps) k \<and> k \<in> set (part_names (c # cs)))"
      proof (cases "k = Content_name c")
        case True
        have "count_list (part_names cs) k \<noteq> 0"
          using k count_list_0_iff [of "part_names cs" k] by auto
        then have "1 \<le> count_list (part_names cs) k"
          by simp
        then show ?thesis
          using True False by (simp add: part_names_Cons)
      next
        case ne: False
        then show ?thesis
          using k False f by (auto simp: part_names_Cons)
      qed
      then show ?thesis
        using s b by auto
    qed
  qed
qed

lemma build_loop_params:
  "build_loop ps cs = Inr ps' \<Longrightarrow>
     map_of (params ps') n =
       (if param_values n cs = [] then map_of (params ps) n
        else Some ((case map_of (params ps) n of None \<Rightarrow> [] | Some us \<Rightarrow> us) @ param_values n cs))"
proof (induction cs arbitrary: ps)
  case Nil
  then show ?case by simp
next
  case (Cons c cs)
  then obtain ps1 where s: "build_step ps c = Inr ps1" and l: "build_loop ps1 cs = Inr ps'"
    by (auto split: sum.splits)
  note IH = Cons.IH [OF l]
  show ?case
  proof (cases c)
    case (ParamContent n' v)
    with s have "params ps1 = create_or_append (params ps) n' v" by auto
    then show ?thesis
      using IH ParamContent by (auto simp: map_of_create_or_append split: option.splits)
  next
    case (FieldContent n' v)
    with s have "params ps1 = params ps" by auto
    then show ?thesis using IH FieldContent by simp
  next
    case (FileContent n' f fname t)
    with s have "params ps1 = params ps" by (auto split: sum.splits)
    then show ?thesis using IH FileContent by simp
  next
    case (JSONContent n' j)
    with s have "params ps1 = params ps" by (auto split: sum.splits)
    then show ?thesis using IH JSONContent by simp
  qed
qed

lemma build_loop_data:
  "build_loop ps cs = Inr ps' \<Longrightarrow>
     map_of (data ps') n =
       (if field_values n cs = [] then map_of (data ps) n
        else Some ((case map_of (data ps) n of None \<Rightarrow> [] | Some us \<Rightarrow> us) @ field_values n cs))"
proof (induction cs arbitrary: ps)
  case Nil
  then show ?case by simp
next
  case (Cons c cs)
  then obtain ps1 where s: "build_step ps c = Inr ps1" and l: "build_loop ps1 cs = Inr ps'"
    by (auto split: sum.splits)
  note IH = Cons.IH [OF l]
  show ?case
  proof (cases c)
    case (ParamContent n' v)
    with s have "data ps1 = data ps" by auto
    then show ?thesis using IH ParamContent by simp
  next
    case (FieldContent n' v)
    with s have "data ps1 = create_or_append (data ps) n' v" by auto
    then show ?thesis
      using IH FieldContent by (auto simp: map_of_create_or_append split: option.splits)
  next
    case (FileContent n' f fname t)
    with s have "data ps1 = data ps" by (auto split: sum.splits)
    then show ?thesis using IH FileContent by simp
  next
    case (JSONContent n' j)
    with s have "data ps1 = data ps" by (auto split: sum.splits)
    then show ?thesis using IH JSONContent by simp
  qed
qed

text \<open>
  Claim C2. Take a composite whose JSON members passed their constructor. If no two of
  its File and JSON members share a name, \<open>build()\<close> succeeds however the names of its
  Parameter and Field members repeat, and \<open>params\<close> (\<open>data\<close>) holds under each name the
  list of the values of the Parameters (Fields) of that name, in the order in which the
  members were added. If two of its File and JSON members share a name (two Files, two
  JSON values, or one of each), \<open>build()\<close> raises \<open>DuplicateValue\<close> for such a name.
\<close>

theorem composite_build_duplicates:
  assumes "list_all json_checked (content_list self)"
  shows "(distinct (part_names (content_list self)) \<longrightarrow>
           (\<exists>ps. MultiContent_build self = Inr (as_dict ps) \<and>
              (\<forall>n. map_of (params ps) n =
                 (if param_values n (content_list self) = [] then None
                  else Some (param_values n (content_list self)))) \<and>
              (\<forall>n. map_of (data ps) n =
                 (if field_values n (content_list self) = [] then None
                  else Some (field_values n (content_list self)))))) \<and>
         (\<not> distinct (part_names (content_list self)) \<longrightarrow>
           (\<exists>k. MultiContent_build self = Inl (DuplicateValue k) \<and>
                2 \<le> count_list (part_names (content_list self)) k))"
proof (intro conjI impI)
  let ?ps0 = "\<lparr>params = [], data = [], files = []\<rparr>"
  assume d: "distinct (part_names (content_list self))"
  have "\<exists>ps. build_loop ?ps0 (content_list self) = Inr ps"
    using assms d by (rule build_loop_ok) (simp add: has_key_def)
  then obtain ps where l: "build_loop ?ps0 (content_list self) = Inr ps" ..
  have "MultiContent_build self = Inr (as_dict ps)"
    by (simp add: MultiContent_build_def l)
  moreover have "\<forall>n. map_of (params ps) n =
                 (if param_values n (content_list self) = [] then None
                  else Some (param_values n (content_list self)))"
    using build_loop_params [OF l] by simp
  moreover have "\<forall>n. map_of (data ps) n =
                 (if field_values n (content_list self) = [] then None
                  else Some (field_values n (content_list self)))"
    using build_loop_data [OF l] by simp
  ultimately show "\<exists>ps. MultiContent_build self = Inr (as_dict ps) \<and>
              (\<forall>n. map_of (params ps) n =
                 (if param_values n (content_list self) = [] then None
                  else Some (param_values n (content_list self)))) \<and>
              (\<forall>n. map_of (data ps) n =
                 (if field_values n (content_list self) = [] then None
                  else Some (field_values n (content_list self))))"
    by blast
next
  let ?ps0 = "\<lparr>params = [], data = [], files = []\<rparr>"
  assume "\<not> distinct (part_names (content_list self))"
  then have "\<not> (distinct (part_names (content_list self)) \<and>
               (\<forall>k \<in> set (part_names (content_list self)). \<not> has_key (files ?ps0) k))"
    by simp
  with assms have "\<exists>k. build_loop ?ps0 (content_list self) = Inl (DuplicateValue k) \<and>
             (2 \<le> count_list (part_names (content_list self)) k \<or>
              (has_key (files ?ps0) k \<and> k \<in> set (part_names (content_list self))))"
    by (rule build_loop_dup)
  then show "\<exists>k. MultiContent_build self = Inl (DuplicateValue k) \<and>
                2 \<le> count_list (part_names (content_list self)) k"
    by (auto simp: MultiContent_build_def has_key_def)
qed

theorem composite_build_duplicates_witness:
  \<open>list_all json_checked
     [ParamContent (PStr ''param1'') (PStr ''suboiz''),
      FieldContent (PStr ''field2'') (PStr ''sasuketamin''),
      JSONContent (PStr ''file'') (PDict [(KStr ''luffee'', PStr ''hancock'')]),
      ParamContent (PStr ''param1'') (PStr ''again''),
      FieldContent (PStr ''field2'') (PStr ''narutobaco'')] \<and>
   distinct (part_names
     [ParamContent (PStr ''param1'') (PStr ''suboiz''),
      FieldContent (PStr ''field2'') (PStr ''sasuketamin''),
      JSONContent (PStr ''file'') (PDict [(KStr ''luffee'', PStr ''hancock'')]),
      ParamContent (PStr ''param1'') (PStr ''again''),
      FieldContent (PStr ''field2'') (PStr ''narutobaco'')]) \<and>
   (\<exists>ps. MultiContent_build
           \<lparr>mc_name = PStr ''form'',
            content_list =
              [ParamContent (PStr ''param1'') (PStr ''suboiz''),
               FieldContent (PStr ''field2'') (PStr ''sasuketamin''),
               JSONContent (PStr ''file'') (PDict [(KStr ''luffee'', PStr ''hancock'')]),
               ParamContent (PStr ''param1'') (PStr ''again''),
               FieldContent (PStr ''field2'') (PStr ''narutobaco'')],
            mc_enctype = MULTIPART_FORM_DATA\<rparr> = Inr (as_dict ps) \<and>
         map_of (params ps) (PStr ''param1'') = Some [PStr ''suboiz'', PStr ''again''] \<and>
         map_of (data ps) (PStr ''field2'') = Some [PStr ''sasuketamin'', PStr ''narutobaco'']) \<and>
   list_all json_checked
     [FileContent (PStr ''file'') (FTextIO 0 (Attr (PStr ''notes.txt''))) (FnStr ''notes.txt'')
        ''text/plain'',
      FieldContent (PStr ''field2'') (PStr ''sasuketamin''),
      JSONContent (PStr ''file'') (PDict [(KStr ''luffee'', PStr ''hancock'')])] \<and>
   \<not> distinct (part_names
     [FileContent (PStr ''file'') (FTextIO 0 (Attr (PStr ''notes.txt''))) (FnStr ''notes.txt'')
        ''text/plain'',
      FieldContent (PStr ''field2'') (PStr ''sasuketamin''),
      JSONContent (PStr ''file'') (PDict [(KStr ''luffee'', PStr ''hancock'')])]) \<and>
   (\<exists>k. MultiContent_build
          \<lparr>mc_name = PStr ''form'',
           content_list =
             [FileContent (PStr ''file'') (FTextIO 0 (Attr (PStr ''notes.txt''))) (FnStr ''notes.txt'')
                ''text/plain'',
              FieldContent (PStr ''field2'') (PStr ''sasuketamin''),
              JSONContent (PStr ''file'') (PDict [(KStr ''luffee'', PStr ''hancock'')])],
           mc_enctype = MULTIPART_FORM_DATA\<rparr> = Inl (DuplicateValue k))\<close>
proof -
  let ?j = "JSONContent (PStr ''file'') (PDict [(KStr ''luffee'', PStr ''hancock'')])"
  let ?cs1 = "[ParamContent (PStr ''param1'') (PStr ''suboiz''),
      FieldContent (PStr ''field2'') (PStr ''sasuketamin''), ?j,
      ParamContent (PStr ''param1'') (PStr ''again''),
      FieldContent (PStr ''field2'') (PStr ''narutobaco'')]"
  let ?cs2 = "[FileContent (PStr ''file'') (FTextIO 0 (Attr (PStr ''notes.txt''))) (FnStr ''notes.txt'')
        ''text/plain'',
      FieldContent (PStr ''field2'') (PStr ''sasuketamin''), ?j]"
  let ?m1 = "\<lparr>mc_name = PStr ''form'', content_list = ?cs1, mc_enctype = MULTIPART_FORM_DATA\<rparr>"
  let ?m2 = "\<lparr>mc_name = PStr ''form'', content_list = ?cs2, mc_enctype = MULTIPART_FORM_DATA\<rparr>"
  have jc: "json_checked ?j"
    by (simp add: JSONContent_init_def Content_init_def)
  have c1: "list_all json_checked (content_list ?m1)"
    using jc by simp
  have c2: "list_all json_checked (content_list ?m2)"
    using jc by simp
  have d1: "distinct (part_names (content_list ?m1))"
    by (simp add: part_names_def)
  have d2: "\<not> distinct (part_names (content_list ?m2))"
    by (simp add: part_names_def)
  from composite_build_duplicates [OF c1] d1
  obtain ps where b1: "MultiContent_build ?m1 = Inr (as_dict ps)"
    and p1: "\<forall>n. map_of (params ps) n =
                 (if param_values n (content_list ?m1) = [] then None
                  else Some (param_values n (content_list ?m1)))"
    and f1: "\<forall>n. map_of (data ps) n =
                 (if field_values n (content_list ?m1) = [] then None
                  else Some (field_values n (content_list ?m1)))"
    by blast
  have "map_of (params ps) (PStr ''param1'') = Some [PStr ''suboiz'', PStr ''again'']"
    using p1 by simp
  moreover have "map_of (data ps) (PStr ''field2'')
      = Some [PStr ''sasuketamin'', PStr ''narutobaco'']"
    using f1 by simp
  ultimately have r1: "\<exists>ps. MultiContent_build ?m1 = Inr (as_dict ps) \<and>
         map_of (params ps) (PStr ''param1'') = Some [PStr ''suboiz'', PStr ''again''] \<and>
         map_of (data ps) (PStr ''field2'') = Some [PStr ''sasuketamin'', PStr ''narutobaco'']"
    using b1 by blast
  from composite_build_duplicates [OF c2] d2
  have r2: "\<exists>k. MultiContent_build ?m2 = Inl (DuplicateValue k)"
    by blast
  show ?thesis
    using c1 c2 d1 d2 r1 r2 by simp
qed

section \<open>The end-to-end scenario\<close>



end
